theory Spec2Isabelle
  imports Complex_Main
begin

section \<open>Data model of src/src/App.tsx\<close>

text \<open>
  The card scene of \<^verbatim>\<open>App.tsx\<close>: a zustand store with the cards and the focus index, three
  mutable refs (clock, mouse, drag), the hover flags held in React state, the gesture
  handlers and the per-frame callback.

  JavaScript numbers are modelled as reals (array indices and the focus as naturals), so
  sums, differences and comparisons are the exact ones. A \<^verbatim>\<open>TypeError\<close> raised by reading a
  property of \<^verbatim>\<open>undefined\<close> is a value of the sum type.
\<close>

datatype error = TypeError

text \<open>\<^verbatim>\<open>interface CardType { flip: boolean; lift?: number }\<close>\<close>

record CardType =
  card_flip :: bool
  card_lift :: "real option"

text \<open>The state of the zustand store (its actions are the functions below).\<close>

record Store =
  cards :: "CardType list"
  focus :: nat

text \<open>\<^verbatim>\<open>interface DragRef\<close>; the fields \<^verbatim>\<open>x\<close>, \<^verbatim>\<open>y\<close> and \<^verbatim>\<open>i\<close> are \<open>dragX\<close>, \<open>dragY\<close>, \<open>dragI\<close>.\<close>

record DragRef =
  dragX :: real
  dragY :: real
  vX :: real
  vY :: real
  dX :: real
  dY :: real
  dragI :: "nat option"
  dragging :: bool
  dragged :: bool

text \<open>
  \<^verbatim>\<open>interface MouseRef\<close>. The hovered object is only ever used through
  \<^verbatim>\<open>new THREE.Box3().setFromObject(mouse.object)\<close>, so it is represented by that box
  (\<open>box_min\<close> and \<open>box_max\<close> are the x and y of \<^verbatim>\<open>bbox.min\<close> and \<^verbatim>\<open>bbox.max\<close>).
\<close>

record Box3 =
  box_min :: "real \<times> real"
  box_max :: "real \<times> real"

record MouseRef =
  mouse_position :: "real \<times> real"
  hoverPosition :: "real \<times> real"
  object :: "Box3 option"

text \<open>The \<^verbatim>\<open>clock\<close> ref of \<^verbatim>\<open>Scene\<close>.\<close>

record Clock =
  tick :: int
  lastTick :: real
  tps :: real
  elapsed :: real
  prevElapsed :: real
  animOffset :: real

text \<open>
  Everything the handlers and the frame callback read and write: the store, the callbacks
  that \<^verbatim>\<open>bump\<close> has handed to \<^verbatim>\<open>setTimeout\<close> and that have not fired yet (each is
  determined by its index \<^verbatim>\<open>i\<close>; oldest first), the hover flags and the three refs.

  A hover flag is read only for its truthiness and written only as \<^verbatim>\<open>true\<close> or \<^verbatim>\<open>false\<close>;
  the holes of \<^verbatim>\<open>Array(n)\<close> and \<^verbatim>\<open>undefined\<close> entries read as false, and are \<open>False\<close> here.
\<close>

record Scene =
  store :: Store
  timeouts :: "nat list"
  hover :: "bool list"
  clock :: Clock
  mouse :: MouseRef
  drag :: DragRef

section \<open>The store's actions\<close>

text \<open>\<^verbatim>\<open>setFocus: (i) => set(() => ({ focus: i }))\<close>\<close>

definition setFocus :: "nat \<Rightarrow> Store \<Rightarrow> Store" where
  "setFocus i st = st\<lparr>focus := i\<rparr>"

text \<open>\<^verbatim>\<open>setCards\<close>: focus 0 and \<^verbatim>\<open>i\<close> fresh cards \<^verbatim>\<open>{ flip: false }\<close>.\<close>

definition setCards :: "nat \<Rightarrow> Store \<Rightarrow> Store" where
  "setCards i st =
     (setFocus 0 st)\<lparr>cards := replicate i \<lparr>card_flip = False, card_lift = None\<rparr>\<rparr>"

text \<open>
  \<^verbatim>\<open>bump\<close>: \<^verbatim>\<open>cards[i].lift = 4.5\<close> raises when \<^verbatim>\<open>cards[i]\<close> is \<^verbatim>\<open>undefined\<close>, before
  \<^verbatim>\<open>setTimeout\<close> is reached; otherwise the reset callback for \<^verbatim>\<open>i\<close> is scheduled.
\<close>

definition bump :: "nat \<Rightarrow> Store \<times> nat list \<Rightarrow> error + Store \<times> nat list" where
  "bump i w =
     (case w of (st, pending) \<Rightarrow>
        if i < length (cards st)
        then Inr (st\<lparr>cards := (cards st)[i := (cards st ! i)\<lparr>card_lift := Some 4.5\<rparr>]\<rparr>,
                  pending @ [i])
        else Inl TypeError)"

text \<open>
  The callback \<^verbatim>\<open>() => set((state) => { const cards = state.cards; cards[i].lift = 0 })\<close>
  that \<^verbatim>\<open>bump(i)\<close> scheduled, run against the store as it is when the timer fires.
\<close>

definition liftReset :: "nat \<Rightarrow> Store \<Rightarrow> error + Store" where
  "liftReset i st =
     (if i < length (cards st)
      then Inr (st\<lparr>cards := (cards st)[i := (cards st ! i)\<lparr>card_lift := Some 0\<rparr>]\<rparr>)
      else Inl TypeError)"

text \<open>The oldest pending timeout fires.\<close>

definition fireTimeout :: "Store \<times> nat list \<Rightarrow> error + Store \<times> nat list" where
  "fireTimeout w =
     (case w of (st, pending) \<Rightarrow>
        (case pending of
           [] \<Rightarrow> Inr (st, [])
         | i # rest \<Rightarrow>
             (case liftReset i st of Inl e \<Rightarrow> Inl e | Inr st' \<Rightarrow> Inr (st', rest))))"

text \<open>\<^verbatim>\<open>flip\<close>: \<^verbatim>\<open>state.bump(i)\<close> first, then \<^verbatim>\<open>cards[i].flip = !cards[i].flip\<close>.\<close>

definition flip :: "nat \<Rightarrow> Store \<times> nat list \<Rightarrow> error + Store \<times> nat list" where
  "flip i w =
     (case bump i w of
        Inl e \<Rightarrow> Inl e
      | Inr (st, pending) \<Rightarrow>
          if i < length (cards st)
          then Inr (st\<lparr>cards :=
                      (cards st)[i := (cards st ! i)\<lparr>card_flip := \<not> card_flip (cards st ! i)\<rparr>]\<rparr>,
                    pending)
          else Inl TypeError)"

section \<open>Gesture handlers\<close>

text \<open>
  \<^verbatim>\<open>n.splice(i, 1, v)\<close>: the entry at \<^verbatim>\<open>i\<close> is replaced; a start index at or past the end
  removes nothing and appends \<^verbatim>\<open>v\<close>.
\<close>

definition splice1 :: "nat \<Rightarrow> 'a \<Rightarrow> 'a list \<Rightarrow> 'a list" where
  "splice1 i v xs = (if i < length xs then xs[i := v] else xs @ [v])"

text \<open>\<^verbatim>\<open>onDrag\<close>: point, velocity and direction of the gesture; the drag target is not touched.\<close>

definition onDrag :: "real \<times> real \<Rightarrow> real \<times> real \<Rightarrow> real \<times> real \<Rightarrow> Scene \<Rightarrow> Scene" where
  "onDrag point velocity direction s =
     s\<lparr>drag := (drag s)\<lparr>dragX := fst point, dragY := snd point,
                          vX := fst velocity, vY := snd velocity,
                          dX := fst direction, dY := snd direction\<rparr>\<rparr>"

definition onDragStart :: "nat \<Rightarrow> Scene \<Rightarrow> Scene" where
  "onDragStart i s = s\<lparr>drag := (drag s)\<lparr>dragI := Some i, dragging := True, dragged := True\<rparr>\<rparr>"

text \<open>
  \<^verbatim>\<open>onDragEnd\<close>: \<^verbatim>\<open>if (drag.current.i && mouse.current.position.y > -0.3)\<close> tests the
  truthiness of the index, and the number 0 is falsy like \<^verbatim>\<open>undefined\<close>.
\<close>

definition onDragEnd :: "Scene \<Rightarrow> Scene" where
  "onDragEnd s =
     (let s' = (case dragI (drag s) of
                  None \<Rightarrow> s
                | Some i \<Rightarrow>
                    if i \<noteq> 0 \<and> snd (mouse_position (mouse s)) > - 0.3
                    then s\<lparr>store := setFocus i (store s)\<rparr>
                    else s)
      in s'\<lparr>drag := (drag s')\<lparr>dragging := False, dragI := None\<rparr>\<rparr>)"

definition onMove :: "real \<times> real \<Rightarrow> Box3 \<Rightarrow> Scene \<Rightarrow> Scene" where
  "onMove point eventObject s =
     s\<lparr>mouse := (mouse s)\<lparr>hoverPosition := point, object := Some eventObject\<rparr>\<rparr>"

text \<open>
  \<^verbatim>\<open>onClick\<close> of card \<^verbatim>\<open>i\<close>: a click that follows a drag only consumes the \<^verbatim>\<open>dragged\<close> flag.
\<close>

definition onClick :: "nat \<Rightarrow> Scene \<Rightarrow> error + Scene" where
  "onClick i s =
     (if dragged (drag s) then Inr (s\<lparr>drag := (drag s)\<lparr>dragged := False\<rparr>\<rparr>)
      else if focus (store s) = i then
        (case flip (focus (store s)) (store s, timeouts s) of
           Inl e \<Rightarrow> Inl e
         | Inr (st, pending) \<Rightarrow>
             Inr (s\<lparr>store := st, timeouts := pending, hover := map (\<lambda>x. False) (hover s)\<rparr>))
      else Inr (s\<lparr>store := setFocus i (store s), hover := map (\<lambda>x. False) (hover s)\<rparr>))"

definition onPointerOver :: "nat \<Rightarrow> Scene \<Rightarrow> Scene" where
  "onPointerOver i s = s\<lparr>hover := splice1 i True (map (\<lambda>x. False) (hover s))\<rparr>"

definition onPointerOut :: "nat \<Rightarrow> Scene \<Rightarrow> Scene" where
  "onPointerOut i s = s\<lparr>hover := splice1 i False (hover s)\<rparr>"

text \<open>
  The two effects of \<^verbatim>\<open>Scene\<close>: \<^verbatim>\<open>setCards(cardCount)\<close> when the control changes, and
  \<^verbatim>\<open>setHover(Array(cards.length))\<close> when the cards array changes.
\<close>

definition rebuildHover :: "Scene \<Rightarrow> Scene" where
  "rebuildHover s = s\<lparr>hover := replicate (length (cards (store s))) False\<rparr>"

definition cardCountChanged :: "nat \<Rightarrow> Scene \<Rightarrow> Scene" where
  "cardCountChanged n s = rebuildHover (s\<lparr>store := setCards n (store s)\<rparr>)"

text \<open>The refs and the store as \<^verbatim>\<open>Scene\<close> creates them, after the first \<^verbatim>\<open>setCards(n)\<close>.\<close>

definition initialScene :: "nat \<Rightarrow> Scene" where
  "initialScene n =
     cardCountChanged n
       \<lparr>store = \<lparr>cards = [], focus = 0\<rparr>,
        timeouts = [],
        hover = [],
        clock = \<lparr>tick = 0, lastTick = 0, tps = 30, elapsed = 0, prevElapsed = 0,
                 animOffset = 0\<rparr>,
        mouse = \<lparr>mouse_position = (0, 0), hoverPosition = (0, 0), object = None\<rparr>,
        drag = \<lparr>dragX = 0, dragY = 0, vX = 0, vY = 0, dX = 0, dY = 0, dragI = None,
                dragging = False, dragged = False\<rparr>\<rparr>"

section \<open>Configuration and utilities\<close>

text \<open>The two spring tunings.\<close>

record SpringConf =
  mass :: real
  tension :: real
  friction :: real
  damping :: "real option"

definition cardSpringConf :: SpringConf where
  "cardSpringConf = \<lparr>mass = 10, tension = 300, friction = 85, damping = None\<rparr>"

definition cardMovementSpringConf :: SpringConf where
  "cardMovementSpringConf = \<lparr>mass = 10, tension = 1000, friction = 150, damping = Some 500\<rparr>"

text \<open>
  A rotation handed to a spring: the three Euler angles, optionally followed by the order
  tag \<^verbatim>\<open>"ZXY"\<close> that \<^verbatim>\<open>hoverTilt\<close> appends. \<open>EulerNonFinite\<close> stands for the array that
  \<^verbatim>\<open>hoverTilt\<close> returns when it divides by a zero extent of the box (the quotient is then
  an infinity or \<^verbatim>\<open>NaN\<close>, not a real).
\<close>

datatype Rotation = Euler real real real | EulerZXY real real real | EulerNonFinite

text \<open>The props one \<^verbatim>\<open>springApi.start\<close> callback returns for a spring; absent keys are \<open>None\<close>.\<close>

record Target =
  position :: "(real \<times> real \<times> real) option"
  rotation :: "Rotation option"
  scale :: "(real \<times> real \<times> real) option"
  config :: "SpringConf option"

text \<open>
  \<^verbatim>\<open>number.toString().split(".")[1][ntn]\<close>, step by step. \<open>split_dot\<close> is
  \<^verbatim>\<open>String.prototype.split(".")\<close>; indexing \<^verbatim>\<open>undefined\<close> raises, indexing a string past its
  end gives \<^verbatim>\<open>undefined\<close>; \<^verbatim>\<open>Number\<close> of a one-character string is the digit's value, 0 for
  white space and \<^verbatim>\<open>NaN\<close> (\<open>None\<close>) for any other character and for \<^verbatim>\<open>undefined\<close>.
\<close>

fun split_dot :: "string \<Rightarrow> string list" where
  "split_dot [] = [[]]"
| "split_dot (c # cs) =
     (if c = CHR ''.'' then [] # split_dot cs
      else (case split_dot cs of [] \<Rightarrow> [[c]] | seg # segs \<Rightarrow> (c # seg) # segs))"

definition charAt :: "string \<Rightarrow> nat \<Rightarrow> char option" where
  "charAt str n = (if n < length str then Some (str ! n) else None)"

definition Number_of :: "char option \<Rightarrow> nat option" where
  "Number_of u =
     (case u of
        None \<Rightarrow> None
      | Some c \<Rightarrow>
          if c \<in> set [CHR '' '', CHR 0x09, CHR 0x0A, CHR 0x0B, CHR 0x0C, CHR 0x0D] then Some 0
          else map_of [(CHR ''0'', 0), (CHR ''1'', 1), (CHR ''2'', 2), (CHR ''3'', 3),
                       (CHR ''4'', 4), (CHR ''5'', 5), (CHR ''6'', 6), (CHR ''7'', 7),
                       (CHR ''8'', 8), (CHR ''9'', 9)] c)"

text \<open>
  \<^verbatim>\<open>nthDigit\<close>. \<^verbatim>\<open>Number.prototype.toString\<close> belongs to the JavaScript runtime, not to the
  repository: it is the parameter \<open>toString\<close>.
\<close>

definition nthDigit :: "(real \<Rightarrow> string) \<Rightarrow> nat \<Rightarrow> real \<Rightarrow> error + nat option" where
  "nthDigit toString ntn number =
     (case split_dot (toString number) of
        whole # fraction # rest \<Rightarrow> Inr (Number_of (charAt fraction ntn))
      | _ \<Rightarrow> Inl TypeError)"

text \<open>
  A division whose divisor may be zero: JavaScript then yields an infinity or \<^verbatim>\<open>NaN\<close>,
  which is \<open>None\<close>.
\<close>

definition js_div :: "real \<Rightarrow> real \<Rightarrow> real option" where
  "js_div a b = (if b = 0 then None else Some (a / b))"

definition degToRad :: "real \<Rightarrow> real" where
  "degToRad degrees = degrees * (pi / 180)"

definition clamp :: "real \<Rightarrow> real \<Rightarrow> real \<Rightarrow> real" where
  "clamp v lo hi = max lo (min hi v)"

text \<open>\<^verbatim>\<open>hoverTilt\<close>: augment a rotation based on the mouse position over the hovered object.\<close>

definition hoverTilt :: "real \<times> real \<times> real \<Rightarrow> MouseRef \<Rightarrow> Rotation" where
  "hoverTilt baseRotation m =
     (case baseRotation of (r0, r1, r2) \<Rightarrow>
        (case object m of
           None \<Rightarrow> Euler r0 r1 r2
         | Some bbox \<Rightarrow>
             (let hx = fst (hoverPosition m);
                  hy = snd (hoverPosition m);
                  mX = (if hx \<ge> 0 then js_div hx (fst (box_max bbox))
                        else js_div (- hx) (fst (box_min bbox)));
                  mY = (if hy \<ge> 0 then js_div hy (snd (box_max bbox))
                        else js_div (- hy) (snd (box_min bbox)))
              in (case (mX, mY) of
                    (Some qx, Some qy) \<Rightarrow>
                      EulerZXY (r0 + qy * degToRad 5) (r1 + - qx * degToRad 10) r2
                  | _ \<Rightarrow> EulerNonFinite))))"

text \<open>\<^verbatim>\<open>dragTilt\<close>: augment a rotation based on the drag velocity, each axis clamped.\<close>

definition dragTilt :: "real \<times> real \<times> real \<Rightarrow> DragRef \<Rightarrow> real \<Rightarrow> real \<Rightarrow> Rotation" where
  "dragTilt baseRotation d factor rangeFactor =
     (case baseRotation of (r0, r1, r2) \<Rightarrow>
        Euler (clamp (r0 + vY d * dY d * factor) (- 0.25 * rangeFactor) (0.25 * rangeFactor))
              (clamp (r1 + vX d * dX d * factor) (- 0.25 * rangeFactor) (0.25 * rangeFactor))
              r2)"

definition focusCardLayout :: Target where
  "focusCardLayout =
     \<lparr>position = Some (0, 1, 0.2), rotation = Some (Euler 0 0 0),
      scale = Some (0.75, 0.75, 0.75), config = None\<rparr>"

text \<open>\<^verbatim>\<open>hover[i]\<close> in a condition: an index past the end reads \<^verbatim>\<open>undefined\<close>, which is falsy.\<close>

definition hoverAt :: "bool list \<Rightarrow> nat \<Rightarrow> bool" where
  "hoverAt h i = (i < length h \<and> h ! i)"

text \<open>
  The locals \<^verbatim>\<open>num\<close>, \<^verbatim>\<open>j\<close> and \<^verbatim>\<open>phase\<close> of \<^verbatim>\<open>cardsLayout\<close>. \<^verbatim>\<open>num\<close> is \<open>-1\<close> for an empty
  array, hence an integer. The one division of \<^verbatim>\<open>phase\<close> has the divisor \<open>num - 1\<close>.
\<close>

definition layout_num :: "CardType list \<Rightarrow> int" where
  "layout_num cs = int (length cs) - 1"

definition layout_j :: "nat \<Rightarrow> nat \<Rightarrow> nat" where
  "layout_j i foc = (if i > foc then i - 1 else i)"

definition layout_phase :: "nat \<Rightarrow> nat \<Rightarrow> CardType list \<Rightarrow> real" where
  "layout_phase i foc cs =
     (if layout_num cs = 1 then 0
      else real (layout_j i foc) / real_of_int (layout_num cs - 1) - 0.5)"

text \<open>\<^verbatim>\<open>cardsLayout\<close>: the layout of the cards that are not in focus.\<close>

definition cardsLayout :: "nat \<Rightarrow> nat \<Rightarrow> CardType list \<Rightarrow> bool list \<Rightarrow> MouseRef \<Rightarrow> Target" where
  "cardsLayout i foc cs h m =
     (let num = real_of_int (layout_num cs);
          height = num * 0.05;
          width = num * 0.6;
          tilt = num * 0.005;
          phase = layout_phase i foc cs
      in \<lparr>position =
            Some (phase * width,
                  - 2.25 - \<bar>phase * height\<bar> + (if hoverAt h i then 0.1 else 0),
                  phase * 0.01 + (if hoverAt h i then 0.2 else 0)),
          rotation =
            Some (if hoverAt h i then hoverTilt (0, 0, - phase * pi * tilt) m
                  else Euler 0 0 (- phase * pi * tilt)),
          scale = Some (0.4, 0.4, 0.4),
          config = Some cardMovementSpringConf\<rparr>)"

section \<open>The main animation loop\<close>

text \<open>
  What the callback of \<^verbatim>\<open>useFrame\<close> reads from its argument and from the controls:
  \<^verbatim>\<open>state.clock.getElapsedTime()\<close>, \<^verbatim>\<open>state.mouse\<close>, \<^verbatim>\<open>state.viewport\<close> (width and height)
  and the \<^verbatim>\<open>tps\<close> control.
\<close>

record FrameInput =
  elapsedTime :: real
  pointer :: "real \<times> real"
  viewport :: "real \<times> real"
  tpsControl :: real

text \<open>
  What a frame does to the outside, in order: each \<^verbatim>\<open>springApi.start\<close> call with the springs
  it gives new props to (the callback is asked for every spring index below
  \<^verbatim>\<open>cards.length\<close>; an index for which it returns \<^verbatim>\<open>undefined\<close> gets nothing), tagged with
  the block of the loop that made the call, and the call \<^verbatim>\<open>flip(focus)\<close> of the trigger.
\<close>

datatype CallSite = DragFollow | HoverFocus | IdleCycle | OtherCards

datatype Effect = SpringStart CallSite "(nat \<times> Target) list" | FlipCall nat

record FrameResult =
  after :: Scene
  effects :: "Effect list"
  fault :: "error option"

definition startAll :: "(nat \<Rightarrow> Target option) \<Rightarrow> nat \<Rightarrow> (nat \<times> Target) list" where
  "startAll f n = List.map_filter (\<lambda>i. map_option (Pair i) (f i)) [0..<n]"

text \<open>
  ``Update the clock'' and ``Count clock ticks'': the time difference is compared with
  \<^verbatim>\<open>c.tps\<close> itself.
\<close>

definition updateClock :: "FrameInput \<Rightarrow> Clock \<Rightarrow> Clock" where
  "updateClock inp c =
     (let c1 = c\<lparr>prevElapsed := elapsed c, elapsed := elapsedTime inp, tps := tpsControl inp\<rparr>
      in if elapsedTime inp - lastTick c1 > tps c1
         then c1\<lparr>lastTick := elapsedTime inp, tick := tick c1 + 1\<rparr>
         else c1)"

text \<open>
  The gate \<^verbatim>\<open>c.elapsed - c.lastTick >= 1 / c.tps\<close>. For \<^verbatim>\<open>tps\<close> 0 the quotient is
  \<^verbatim>\<open>Infinity\<close> and the comparison is false.
\<close>

definition tickDue :: "Clock \<Rightarrow> bool" where
  "tickDue c = (tps c \<noteq> 0 \<and> elapsed c - lastTick c \<ge> 1 / tps c)"

text \<open>The pause condition \<^verbatim>\<open>focus === drag.current.i || hover[focus]\<close>.\<close>

definition paused :: "Scene \<Rightarrow> bool" where
  "paused s = (dragI (drag s) = Some (focus (store s)) \<or> hoverAt (hover s) (focus (store s)))"

text \<open>``Make an object being dragged follow the mouse'': the callback of the first call.\<close>

definition dragFollow :: "FrameInput \<Rightarrow> Scene \<Rightarrow> nat \<Rightarrow> Target option" where
  "dragFollow inp s i =
     (if dragI (drag s) = Some i
      then Some \<lparr>position = Some (fst (pointer inp) * fst (viewport inp) / 3,
                                  snd (pointer inp) * snd (viewport inp) / 3,
                                  1),
                 rotation = Some (dragTilt (0, 0, 0) (drag s) 1 1),
                 scale = None,
                 config = Some cardMovementSpringConf\<rparr>
      else None)"

text \<open>``Apply interactivity (hover tilt) to focus card''.\<close>

definition hoverFocus :: "Scene \<Rightarrow> nat \<Rightarrow> Target option" where
  "hoverFocus s i =
     (if i = focus (store s)
      then Some \<lparr>position = None,
                 rotation = Some (hoverTilt (0, 0, 0) (mouse s)),
                 scale = Some (0.85, 0.85, 0.85),
                 config = Some cardSpringConf\<rparr>
      else Some (cardsLayout i (focus (store s)) (cards (store s)) (hover s) (mouse s)))"

text \<open>\<^verbatim>\<open>cycle\<close> and \<^verbatim>\<open>prevCycle\<close>, with \<^verbatim>\<open>speed = 0.33\<close>.\<close>

definition cycleAt :: "Clock \<Rightarrow> real \<Rightarrow> real" where
  "cycleAt c t = sin ((t - animOffset c) * 0.33)"

text \<open>``Animate the focus card to its new position''.\<close>

definition idleCycle :: "Scene \<Rightarrow> nat \<Rightarrow> Target option" where
  "idleCycle s i =
     (if i \<noteq> focus (store s) then None
      else (let cycle = cycleAt (clock s) (elapsed (clock s))
            in Some \<lparr>position = Some (cycle * 1,
                                        1 + sin (elapsed (clock s) * 2) * 0.025,
                                        0.2 + \<bar>cycle * 0.25\<bar>),
                       rotation = Some (Euler 0 (cycle * - pi * 0.05) 0),
                       scale = scale focusCardLayout,
                       config = Some cardSpringConf\<rparr>))"

text \<open>``Animate the other cards to their position in the layout''.\<close>

definition otherCards :: "Scene \<Rightarrow> nat \<Rightarrow> Target option" where
  "otherCards s i =
     (if i = focus (store s) then None
      else if dragging (drag s) \<and> dragI (drag s) = Some i then None
      else Some (cardsLayout i (focus (store s)) (cards (store s)) (hover s) (mouse s)))"

text \<open>
  ``Trigger a card flip at a certain point in the cycle''. The conditions are evaluated
  left to right and \<^verbatim>\<open>&&\<close> stops at the first false one, so a digit is only extracted
  where the source reaches the call. The result is the scene after \<^verbatim>\<open>flip(focus)\<close> and the
  call made, or the error raised by \<^verbatim>\<open>nthDigit\<close> or by \<^verbatim>\<open>flip\<close>.
\<close>

definition flipTrigger :: "(real \<Rightarrow> string) \<Rightarrow> Scene \<Rightarrow> error + Scene \<times> Effect list" where
  "flipTrigger toString s =
     (let c = clock s; cycle = cycleAt c (elapsed c)
      in if elapsed c > 5 \<and> cycle > 0
         then (case nthDigit toString 0 cycle of
                 Inl e \<Rightarrow> Inl e
               | Inr d0 \<Rightarrow>
                   if d0 = Some 9
                   then (let prevCycle = cycleAt c (prevElapsed c)
                         in case nthDigit toString 1 cycle of
                              Inl e \<Rightarrow> Inl e
                            | Inr d1 \<Rightarrow>
                                if d1 = Some 1
                                then (case nthDigit toString 1 prevCycle of
                                        Inl e \<Rightarrow> Inl e
                                      | Inr p1 \<Rightarrow>
                                          if p1 = Some 0
                                          then (case flip (focus (store s)) (store s, timeouts s) of
                                                  Inl e \<Rightarrow> Inl e
                                                | Inr (st, pending) \<Rightarrow>
                                                    Inr (s\<lparr>store := st, timeouts := pending\<rparr>,
                                                         [FlipCall (focus (store s))]))
                                          else Inr (s, []))
                                else Inr (s, []))
                   else Inr (s, []))
         else Inr (s, []))"

text \<open>
  The callback of \<^verbatim>\<open>useFrame\<close>: \<open>beginFrame\<close> is its start (``Update the clock'',
  ``Update mouse position'', ``Count clock ticks''), \<open>frame\<close> the whole. An error leaves
  the callback at once: what was written before it stays, what comes after it is not
  done. (The scene reference and the \<^verbatim>\<open>debugOnFrame\<close> control touch nothing modelled here.)
\<close>

definition beginFrame :: "FrameInput \<Rightarrow> Scene \<Rightarrow> Scene" where
  "beginFrame inp s0 =
     s0\<lparr>clock := updateClock inp (clock s0),
        mouse := (mouse s0)\<lparr>mouse_position := pointer inp\<rparr>\<rparr>"

definition frame :: "(real \<Rightarrow> string) \<Rightarrow> FrameInput \<Rightarrow> Scene \<Rightarrow> FrameResult" where
  "frame toString inp s0 =
     (let s = beginFrame inp s0;
          n = length (cards (store s))
      in if \<not> tickDue (clock s) then \<lparr>after = s, effects = [], fault = None\<rparr>
         else
           (let follow =
                  (if dragging (drag s) then [SpringStart DragFollow (startAll (dragFollow inp s) n)]
                   else if hoverAt (hover s) (focus (store s))
                   then [SpringStart HoverFocus (startAll (hoverFocus s) n)]
                   else []);
                others =
                  (if \<not> dragging (drag s) then [SpringStart OtherCards (startAll (otherCards s) n)]
                   else [])
            in if paused s
               then \<lparr>after = s\<lparr>clock := (clock s)\<lparr>animOffset :=
                                 animOffset (clock s) + (elapsed (clock s) - prevElapsed (clock s))\<rparr>\<rparr>,
                     effects = follow @ others,
                     fault = None\<rparr>
               else (case flipTrigger toString s of
                       Inl e \<Rightarrow> \<lparr>after = s, effects = follow, fault = Some e\<rparr>
                     | Inr (s', flips) \<Rightarrow>
                         \<lparr>after = s',
                          effects = follow @ flips
                                    @ [SpringStart IdleCycle (startAll (idleCycle s') n)] @ others,
                          fault = None\<rparr>)))"

section \<open>Observations and concrete runs\<close>

text \<open>The \<^verbatim>\<open>flip\<close> calls of a frame, and the springs one block of the loop gave props to.\<close>

fun flipCalls :: "Effect list \<Rightarrow> nat list" where
  "flipCalls [] = []"
| "flipCalls (FlipCall k # es) = k # flipCalls es"
| "flipCalls (SpringStart site ws # es) = flipCalls es"

fun springWrites :: "CallSite \<Rightarrow> Effect list \<Rightarrow> (nat \<times> Target) list" where
  "springWrites site [] = []"
| "springWrites site (FlipCall k # es) = springWrites site es"
| "springWrites site (SpringStart site' ws # es) =
     (if site' = site then ws else []) @ springWrites site es"

text \<open>The number of hovered cards.\<close>

definition hoveredCount :: "Scene \<Rightarrow> nat" where
  "hoveredCount s = length (filter id (hover s))"

text \<open>
  \<^verbatim>\<open>Number.prototype.toString\<close> for runs on concrete numbers, after the ECMAScript
  definition of \<^verbatim>\<open>Number::toString\<close> (radix 10). Zero is \<^verbatim>\<open>"0"\<close>. A magnitude from \<^verbatim>\<open>1e-6\<close> up
  to \<^verbatim>\<open>1e21\<close> is printed in positional notation: the digits of the integer part and,
  unless the fraction is zero, a point and the fractional digits up to the last non-zero
  one. A magnitude below \<^verbatim>\<open>1e-6\<close> or from \<^verbatim>\<open>1e21\<close> on is printed in exponent notation: the
  first significant digit, then (if there are more) a point and the further digits, then
  \<^verbatim>\<open>e-\<close> or \<^verbatim>\<open>e+\<close> and the decimal exponent. A negative number has a leading minus sign.

  A \<^verbatim>\<open>double\<close> prints at most 17 significant digits; a real whose expansion goes on is cut
  after 17 fractional digits (16 after the point of a mantissa) here. The search for the
  exponent is bounded by 400 steps, more than the exponent range of a \<^verbatim>\<open>double\<close>; beyond it
  the number is printed as the \<^verbatim>\<open>double\<close> it would round to, 0 or \<^verbatim>\<open>Infinity\<close>. The theorems
  that speak of every \<open>toString\<close> do not use this definition.
\<close>

definition digitChar :: "nat \<Rightarrow> char" where
  "digitChar d = ''0123456789'' ! d"

fun natDigits :: "nat \<Rightarrow> string" where
  "natDigits n = (if n < 10 then [digitChar n] else natDigits (n div 10) @ [digitChar (n mod 10)])"

fun fractionDigits :: "nat \<Rightarrow> real \<Rightarrow> string" where
  "fractionDigits 0 r = []"
| "fractionDigits (Suc k) r =
     (if r = 0 then []
      else (let d = nat \<lfloor>r * 10\<rfloor> in digitChar d # fractionDigits k (r * 10 - real d)))"

text \<open>
  The mantissa \<open>m\<close> with \<open>1 \<le> m < 10\<close> and the exponent \<open>e\<close> of a magnitude \<open>a\<close>:
  \<open>a = m / 10 ^ e\<close> for a small one (\<open>scaleUp\<close>), \<open>a = m * 10 ^ e\<close> for a large one
  (\<open>scaleDown\<close>); the first argument bounds the search.
\<close>

fun scaleUp :: "nat \<Rightarrow> real \<Rightarrow> nat \<Rightarrow> (real \<times> nat) option" where
  "scaleUp 0 a e = None"
| "scaleUp (Suc fuel) a e = (if 1 \<le> a then Some (a, e) else scaleUp fuel (a * 10) (Suc e))"

fun scaleDown :: "nat \<Rightarrow> real \<Rightarrow> nat \<Rightarrow> (real \<times> nat) option" where
  "scaleDown 0 a e = None"
| "scaleDown (Suc fuel) a e = (if a < 10 then Some (a, e) else scaleDown fuel (a / 10) (Suc e))"

definition mantissaDigits :: "real \<Rightarrow> string" where
  "mantissaDigits m =
     (let d = nat \<lfloor>m\<rfloor>;
          fraction = fractionDigits 16 (m - real d)
      in digitChar d # (if fraction = [] then [] else CHR ''.'' # fraction))"

definition decimalToString :: "real \<Rightarrow> string" where
  "decimalToString x =
     (let a = \<bar>x\<bar>;
          sign = (if x < 0 then ''-'' else [])
      in if a = 0 then ''0''
         else if a < 1 / 10 ^ 6
         then (case scaleUp 400 a 0 of
                 None \<Rightarrow> ''0''
               | Some (m, e) \<Rightarrow> sign @ mantissaDigits m @ ''e-'' @ natDigits e)
         else if 10 ^ 21 \<le> a
         then (case scaleDown 400 a 0 of
                 None \<Rightarrow> sign @ ''Infinity''
               | Some (m, e) \<Rightarrow> sign @ mantissaDigits m @ ''e+'' @ natDigits e)
         else (let whole = nat \<lfloor>a\<rfloor>;
                   fraction = fractionDigits 17 (a - real whole)
               in sign @ natDigits whole
                  @ (if fraction = [] then [] else CHR ''.'' # fraction)))"

text \<open>
  A frame at time \<open>t\<close> with the pointer at the centre and the \<^verbatim>\<open>tps\<close> control at its
  default 30.
\<close>

definition frameAt :: "real \<Rightarrow> FrameInput" where
  "frameAt t = \<lparr>elapsedTime = t, pointer = (0, 0), viewport = (8, 6), tpsControl = 30\<rparr>"

text \<open>
  Four cards with card 0 in focus, nothing hovered or dragged, the last frame at time \<open>t\<close>
  and \<open>off\<close> seconds of pause accumulated so far.
\<close>

definition sceneAt :: "real \<Rightarrow> real \<Rightarrow> Scene" where
  "sceneAt t off =
     (initialScene 4)\<lparr>clock := \<lparr>tick = 0, lastTick = 0, tps = 30, elapsed = t,
                                 prevElapsed = t, animOffset = off\<rparr>\<rparr>"

text \<open>Card 1 in focus, card 0 picked up, the pointer at height \<open>y\<close>.\<close>

definition cardZeroDragged :: "real \<Rightarrow> Scene" where
  "cardZeroDragged y =
     onDragStart 0
       ((initialScene 4)\<lparr>store := setFocus 1 (store (initialScene 4)),
                          mouse := (mouse (initialScene 4))\<lparr>mouse_position := (0, y)\<rparr>\<rparr>)"

section \<open>The drag state machine and the click handler\<close>

lemmas scene_defs = initialScene_def cardCountChanged_def rebuildHover_def setCards_def
  setFocus_def sceneAt_def frameAt_def cardZeroDragged_def onDragStart_def

text \<open>
  For a drag target other than card 0, \<^verbatim>\<open>onDragEnd\<close> moves the focus exactly when the pointer
  is above the threshold, and always ends the drag.
\<close>

lemma onDragEnd_positive_index:
  "dragI (drag s) = Some i \<Longrightarrow> 0 < i \<Longrightarrow>
   focus (store (onDragEnd s)) =
     (if snd (mouse_position (mouse s)) > - 0.3 then i else focus (store s)) \<and>
   \<not> dragging (drag (onDragEnd s)) \<and> dragI (drag (onDragEnd s)) = None"
  by (simp add: onDragEnd_def setFocus_def Let_def)

text \<open>
  C1, at the input where the code departs from it: card 0 is dragged while card 1 has the
  focus, and is released with the pointer at height \<open>-0.29\<close>, above the drop threshold.
  The drag target is set (it is index 0), yet the focus stays on card 1: the test
  \<^verbatim>\<open>drag.current.i && ...\<close> takes index 0 for an unset target.
\<close>

theorem onDragEnd_index_zero_keeps_focus:
  "dragI (drag (cardZeroDragged (- 0.29))) = Some 0 \<and>
   focus (store (cardZeroDragged (- 0.29))) = 1 \<and>
   focus (store (onDragEnd (cardZeroDragged (- 0.29)))) = 1"
  by (simp add: scene_defs onDragEnd_def)

lemma fold_onDrag_drag:
  "dragged (drag (fold (\<lambda>(p, v, d). onDrag p v d) moves s)) = dragged (drag s) \<and>
   dragging (drag (fold (\<lambda>(p, v, d). onDrag p v d) moves s)) = dragging (drag s) \<and>
   dragI (drag (fold (\<lambda>(p, v, d). onDrag p v d) moves s)) = dragI (drag s)"
  by (induction moves arbitrary: s) (simp_all add: onDrag_def split_beta)

lemma onDragEnd_dragged: "dragged (drag (onDragEnd s)) = dragged (drag s)"
  by (simp add: onDragEnd_def Let_def split: option.splits)

lemma onClick_dragged:
  "dragged (drag s) \<Longrightarrow> onClick k s = Inr (s\<lparr>drag := (drag s)\<lparr>dragged := False\<rparr>\<rparr>)"
  by (simp add: onClick_def)

text \<open>
  C9: for every scene, every dragged card \<open>i\<close>, every sequence \<open>moves\<close> of drag-move
  payloads (point, velocity, direction) and every clicked card \<open>k\<close>: \<^verbatim>\<open>dragged\<close> is true
  after drag-start, after the moves and after drag-end, and the click that follows returns
  without an error the scene it found with nothing changed but \<^verbatim>\<open>dragged\<close>, now false. The
  store (focus and cards), the pending timeouts and the hover flags are therefore the
  ones drag-end left.
\<close>

theorem click_after_drag_only_clears_dragged:
  "dragged (drag (onDragStart i s)) \<and>
   dragged (drag (fold (\<lambda>(p, v, d). onDrag p v d) moves (onDragStart i s))) \<and>
   dragged (drag (onDragEnd (fold (\<lambda>(p, v, d). onDrag p v d) moves (onDragStart i s)))) \<and>
   onClick k (onDragEnd (fold (\<lambda>(p, v, d). onDrag p v d) moves (onDragStart i s))) =
     Inr ((onDragEnd (fold (\<lambda>(p, v, d). onDrag p v d) moves (onDragStart i s)))
            \<lparr>drag := (drag (onDragEnd (fold (\<lambda>(p, v, d). onDrag p v d) moves (onDragStart i s))))
                       \<lparr>dragged := False\<rparr>\<rparr>)"
proof -
  have d1: "dragged (drag (onDragStart i s))"
    by (simp add: onDragStart_def)
  then have d2: "dragged (drag (fold (\<lambda>(p, v, d). onDrag p v d) moves (onDragStart i s)))"
    by (simp only: fold_onDrag_drag)
  then have d3:
    "dragged (drag (onDragEnd (fold (\<lambda>(p, v, d). onDrag p v d) moves (onDragStart i s))))"
    by (simp only: onDragEnd_dragged)
  from d1 d2 d3 onClick_dragged[OF d3] show ?thesis
    by blast
qed

section \<open>The deferred lift reset\<close>

text \<open>
  C4, at the input where the code departs from it: \<^verbatim>\<open>bump(3)\<close> on four cards succeeds and
  schedules its reset; \<^verbatim>\<open>setCards(2)\<close> replaces the cards before the timer fires; the
  callback then reads \<^verbatim>\<open>cards[3]\<close>, which is \<^verbatim>\<open>undefined\<close>, and assigning its \<^verbatim>\<open>lift\<close> raises
  a \<^verbatim>\<open>TypeError\<close>.
\<close>

theorem liftReset_after_shrink_raises:
  "map_sum id (\<lambda>(st, pending). fireTimeout (setCards 2 st, pending))
     (bump 3 (store (initialScene 4), [])) = Inr (Inl TypeError)"
  by (simp add: bump_def fireTimeout_def liftReset_def scene_defs)

text \<open>When the index still exists the callback only resets the lift of that card.\<close>

lemma liftReset_in_range:
  "i < length (cards st) \<Longrightarrow>
   liftReset i st = Inr (st\<lparr>cards := (cards st)[i := (cards st ! i)\<lparr>card_lift := Some 0\<rparr>]\<rparr>)"
  by (simp add: liftReset_def)

section \<open>The hover flags\<close>

lemma filter_replicate_False: "filter id (replicate n False) = []"
  by (induction n) simp_all

lemma filter_map_False: "filter id (map (\<lambda>x. False) xs) = []"
  by (induction xs) simp_all

lemma count_update_False: "length (filter id (xs[i := False])) \<le> length (filter id xs)"
proof (induction xs arbitrary: i)
  case Nil
  then show ?case by simp
next
  case (Cons x xs)
  then show ?case by (cases i) (auto intro: le_SucI)
qed

lemma count_update_True:
  "filter id xs = [] \<Longrightarrow> i < length xs \<Longrightarrow> length (filter id (xs[i := True])) = 1"
proof (induction xs arbitrary: i)
  case Nil
  then show ?case by simp
next
  case (Cons x xs)
  then show ?case by (cases i) (auto split: if_splits)
qed

lemma hoveredCount_onPointerOver: "hoveredCount (onPointerOver i s) = 1"
  by (simp add: hoveredCount_def onPointerOver_def splice1_def count_update_True filter_map_False)

lemma hoveredCount_onPointerOut: "hoveredCount (onPointerOut i s) \<le> hoveredCount s"
  by (simp add: hoveredCount_def onPointerOut_def splice1_def count_update_False)

lemma hover_onClick:
  "onClick i s = Inr s' \<Longrightarrow>
   hover s' = (if dragged (drag s) then hover s else replicate (length (hover s)) False)"
  by (auto simp: onClick_def map_replicate_const split: if_splits sum.splits prod.splits)

lemma hoveredCount_onClick:
  "onClick i s = Inr s' \<Longrightarrow> hoveredCount s' \<le> hoveredCount s"
  by (auto simp: hoveredCount_def filter_replicate_False dest!: hover_onClick split: if_splits)

text \<open>
  C10, as amended: a scene with at most one hovered card has at most one after every
  handler. Pointer-over on card \<open>i\<close> leaves every flag false but the one at \<open>i\<close>, which
  is true; pointer-out on card \<open>i\<close> changes the flag at \<open>i\<close> only, to false; a click sets
  all flags to false unless it is the click consumed after a drag, which leaves the flags
  as they are; rebuilding for a new cards array gives one false flag per card.
\<close>

theorem hover_at_most_one:
  assumes "hoveredCount s \<le> 1"
  shows "hoveredCount (onPointerOver i s) \<le> 1 \<and>
         (i < length (hover s) \<longrightarrow>
            hover (onPointerOver i s) = (replicate (length (hover s)) False)[i := True]) \<and>
         hoveredCount (onPointerOut i s) \<le> 1 \<and>
         (i < length (hover s) \<longrightarrow> hover (onPointerOut i s) = (hover s)[i := False]) \<and>
         (\<forall>s'. onClick i s = Inr s' \<longrightarrow>
            hoveredCount s' \<le> 1 \<and>
            hover s' = (if dragged (drag s) then hover s
                        else replicate (length (hover s)) False)) \<and>
         hover (rebuildHover s) = replicate (length (cards (store s))) False \<and>
         hoveredCount (rebuildHover s) = 0"
proof -
  have over: "hoveredCount (onPointerOver i s) \<le> 1"
    by (simp add: hoveredCount_onPointerOver)
  have over_at: "i < length (hover s) \<longrightarrow>
      hover (onPointerOver i s) = (replicate (length (hover s)) False)[i := True]"
    by (simp add: onPointerOver_def splice1_def map_replicate_const)
  have out: "hoveredCount (onPointerOut i s) \<le> 1"
    using hoveredCount_onPointerOut[of i s] assms by linarith
  have out_at: "i < length (hover s) \<longrightarrow> hover (onPointerOut i s) = (hover s)[i := False]"
    by (simp add: onPointerOut_def splice1_def)
  have click: "\<forall>s'. onClick i s = Inr s' \<longrightarrow>
      hoveredCount s' \<le> 1 \<and>
      hover s' = (if dragged (drag s) then hover s else replicate (length (hover s)) False)"
  proof (intro allI impI conjI)
    fix s' assume c: "onClick i s = Inr s'"
    show "hoveredCount s' \<le> 1"
      using hoveredCount_onClick[OF c] assms by linarith
    show "hover s' = (if dragged (drag s) then hover s else replicate (length (hover s)) False)"
      by (rule hover_onClick[OF c])
  qed
  have rebuild: "hover (rebuildHover s) = replicate (length (cards (store s))) False"
    by (simp add: rebuildHover_def)
  have rebuild0: "hoveredCount (rebuildHover s) = 0"
    by (simp add: hoveredCount_def rebuildHover_def filter_replicate_False)
  from over over_at out out_at click rebuild rebuild0 show ?thesis
    by blast
qed

text \<open>
  Witness for C10: four cards, the pointer enters card 2 and leaves it again, or card 1 is
  clicked while card 2 is hovered.
\<close>

theorem hover_at_most_one_witness:
  "hoveredCount (initialScene 4) \<le> 1 \<and>
   hoveredCount (onPointerOver 2 (initialScene 4)) \<le> 1 \<and>
   hover (onPointerOver 2 (initialScene 4)) = [False, False, True, False] \<and>
   hoveredCount (onPointerOut 2 (onPointerOver 2 (initialScene 4))) \<le> 1 \<and>
   hover (onPointerOut 2 (onPointerOver 2 (initialScene 4))) = [False, False, False, False] \<and>
   map_sum id hover (onClick 1 (onPointerOver 2 (initialScene 4))) =
     Inr [False, False, False, False] \<and>
   hoveredCount (rebuildHover (initialScene 4)) = 0"
  using hover_at_most_one[of "initialScene 4" 2]
    hover_at_most_one[of "onPointerOver 2 (initialScene 4)" 2]
  by (simp add: scene_defs hoveredCount_def onPointerOver_def onPointerOut_def onClick_def
      splice1_def eval_nat_numeral)

text \<open>
  Counterexample to C10 as stated: the pointer is over card 1, the card is dragged and
  dropped, and the click that follows is consumed by the \<^verbatim>\<open>dragged\<close> guard, which returns
  before \<^verbatim>\<open>setHover\<close>: the flag of card 1 is still true after the click.
\<close>

theorem click_after_drag_keeps_hover:
  "hover (onDragEnd (onDragStart 1 (onPointerOver 1 (initialScene 4)))) =
     [False, True, False, False] \<and>
   map_sum id hover (onClick 1 (onDragEnd (onDragStart 1 (onPointerOver 1 (initialScene 4))))) =
     Inr [False, True, False, False]"
  by (simp add: scene_defs onPointerOver_def onDragEnd_def onClick_def splice1_def
      eval_nat_numeral)

section \<open>The layout of the cards out of focus\<close>

lemma half_window: "0 \<le> q \<Longrightarrow> q \<le> 1 \<Longrightarrow> - 0.5 \<le> q - 0.5 \<and> q - 0.5 \<le> (0.5::real)"
  by simp

lemma layout_phase_bounds:
  assumes "i < length cs" "foc < length cs" "i \<noteq> foc"
  shows "- 0.5 \<le> layout_phase i foc cs \<and> layout_phase i foc cs \<le> 0.5"
proof (cases "layout_num cs = 1")
  case True
  then show ?thesis by (simp add: layout_phase_def)
next
  case False
  have n2: "length cs \<ge> 2" using assms by linarith
  with False have n3: "length cs \<ge> 3" by (simp add: layout_num_def)
  have jle: "layout_j i foc \<le> length cs - 2"
    using assms by (auto simp: layout_j_def)
  have den: "real_of_int (layout_num cs - 1) = real (length cs - 2)"
    using n3 by (simp add: layout_num_def of_nat_diff)
  have pos: "0 < real (length cs - 2)" using n3 by simp
  have ph: "layout_phase i foc cs = real (layout_j i foc) / real (length cs - 2) - 0.5"
    unfolding layout_phase_def den using False by simp
  have "0 \<le> real (layout_j i foc) / real (length cs - 2)"
    by simp
  moreover have "real (layout_j i foc) / real (length cs - 2) \<le> 1"
    using jle pos by (simp add: divide_le_eq_1)
  ultimately show ?thesis
    unfolding ph by (rule half_window)
qed

lemma layout_phase_five:
  assumes "length cs = 5"
  shows "map (\<lambda>i. layout_phase i 2 cs) [0, 1, 3, 4] = [- (1 / 2), - (1 / 6), 1 / 6, 1 / 2]"
  using assms by (simp add: layout_phase_def layout_num_def layout_j_def)

text \<open>
  C8: \<^verbatim>\<open>phase\<close> is 0 when one card is out of focus (\<open>num = 1\<close>); otherwise it is
  \<open>j / (num - 1) - 0.5\<close> and the divisor \<open>num - 1\<close> is not zero; for a card \<open>i\<close> of the array
  other than the focused one it lies in \<open>[-0.5, 0.5]\<close>. With five cards and focus 2 the
  phases of the cards 0, 1, 3, 4 are \<open>-1/2, -1/6, 1/6, 1/2\<close>: strictly increasing, and
  the list is its own mirror image under negation.
\<close>

theorem layout_phase_range:
  "(layout_num cs = 1 \<longrightarrow> layout_phase i foc cs = 0) \<and>
   (layout_num cs \<noteq> 1 \<longrightarrow>
      layout_num cs - 1 \<noteq> 0 \<and>
      layout_phase i foc cs = real (layout_j i foc) / real_of_int (layout_num cs - 1) - 0.5) \<and>
   (i < length cs \<and> foc < length cs \<and> i \<noteq> foc \<longrightarrow>
      - 0.5 \<le> layout_phase i foc cs \<and> layout_phase i foc cs \<le> 0.5) \<and>
   (length cs = 5 \<longrightarrow>
      map (\<lambda>i. layout_phase i 2 cs) [0, 1, 3, 4] = [- (1 / 2), - (1 / 6), 1 / 6, 1 / 2] \<and>
      sorted_wrt (<) (map (\<lambda>i. layout_phase i 2 cs) [0, 1, 3, 4]) \<and>
      map uminus (rev (map (\<lambda>i. layout_phase i 2 cs) [0, 1, 3, 4])) =
        map (\<lambda>i. layout_phase i 2 cs) [0, 1, 3, 4])"
proof (intro conjI impI)
  show "layout_phase i foc cs = 0" if "layout_num cs = 1"
    using that by (simp add: layout_phase_def)
  show "layout_num cs - 1 \<noteq> 0" if "layout_num cs \<noteq> 1"
    using that by simp
  show "layout_phase i foc cs = real (layout_j i foc) / real_of_int (layout_num cs - 1) - 0.5"
    if "layout_num cs \<noteq> 1"
    using that by (simp add: layout_phase_def)
  show "- 0.5 \<le> layout_phase i foc cs" "layout_phase i foc cs \<le> 0.5"
    if "i < length cs \<and> foc < length cs \<and> i \<noteq> foc"
    using that layout_phase_bounds[of i cs foc] by simp_all
  show "map (\<lambda>i. layout_phase i 2 cs) [0, 1, 3, 4] = [- (1 / 2), - (1 / 6), 1 / 6, 1 / 2]"
    if "length cs = 5"
    using that by (rule layout_phase_five)
  show "sorted_wrt (<) (map (\<lambda>i. layout_phase i 2 cs) [0, 1, 3, 4])" if "length cs = 5"
    unfolding layout_phase_five[OF that] by simp
  show "map uminus (rev (map (\<lambda>i. layout_phase i 2 cs) [0, 1, 3, 4])) =
        map (\<lambda>i. layout_phase i 2 cs) [0, 1, 3, 4]" if "length cs = 5"
    unfolding layout_phase_five[OF that] by simp
qed

theorem layout_phase_range_witness:
  "layout_num (replicate 2 \<lparr>card_flip = False, card_lift = None\<rparr>) = 1 \<and>
   layout_phase 1 0 (replicate 2 \<lparr>card_flip = False, card_lift = None\<rparr>) = 0 \<and>
   layout_num (replicate 5 \<lparr>card_flip = False, card_lift = None\<rparr>) \<noteq> 1 \<and>
   layout_num (replicate 5 \<lparr>card_flip = False, card_lift = None\<rparr>) - 1 \<noteq> 0 \<and>
   (1::nat) < length (replicate 5 \<lparr>card_flip = False, card_lift = None\<rparr>) \<and>
   (2::nat) < length (replicate 5 \<lparr>card_flip = False, card_lift = None\<rparr>) \<and>
   layout_phase 1 2 (replicate 5 \<lparr>card_flip = False, card_lift = None\<rparr>) = - (1 / 6) \<and>
   - 0.5 \<le> layout_phase 1 2 (replicate 5 \<lparr>card_flip = False, card_lift = None\<rparr>) \<and>
   layout_phase 1 2 (replicate 5 \<lparr>card_flip = False, card_lift = None\<rparr>) \<le> 0.5 \<and>
   map (\<lambda>i. layout_phase i 2 (replicate 5 \<lparr>card_flip = False, card_lift = None\<rparr>)) [0, 1, 3, 4] =
     [- (1 / 2), - (1 / 6), 1 / 6, 1 / 2]"
  using layout_phase_range[of "replicate 2 \<lparr>card_flip = False, card_lift = None\<rparr>" 1 0]
    layout_phase_range[of "replicate 5 \<lparr>card_flip = False, card_lift = None\<rparr>" 1 2]
  by (simp add: layout_num_def layout_j_def)

section \<open>The frame callback\<close>

text \<open>What the start of the callback leaves alone, and what it writes to the clock.\<close>

lemma beginFrame_fields:
  "store (beginFrame inp s) = store s"
  "timeouts (beginFrame inp s) = timeouts s"
  "hover (beginFrame inp s) = hover s"
  "drag (beginFrame inp s) = drag s"
  "clock (beginFrame inp s) = updateClock inp (clock s)"
  by (simp_all add: beginFrame_def)

lemma updateClock_fields:
  "elapsed (updateClock inp c) = elapsedTime inp"
  "prevElapsed (updateClock inp c) = elapsed c"
  "animOffset (updateClock inp c) = animOffset c"
  "tps (updateClock inp c) = tpsControl inp"
  by (simp_all add: updateClock_def Let_def)

lemma paused_beginFrame: "paused (beginFrame inp s) = paused s"
  by (simp add: paused_def beginFrame_fields)

text \<open>The observations distribute over the effects of a frame.\<close>

lemma flipCalls_append: "flipCalls (xs @ ys) = flipCalls xs @ flipCalls ys"
  by (induction xs rule: flipCalls.induct) simp_all

lemma springWrites_append:
  "springWrites site (xs @ ys) = springWrites site xs @ springWrites site ys"
  by (induction site xs rule: springWrites.induct) simp_all

text \<open>\<^verbatim>\<open>flip\<close> and the trigger change neither the clock nor the focus nor the number of cards.\<close>

lemma flip_frame:
  "flip i w = Inr (st, pending) \<Longrightarrow> focus st = focus (fst w) \<and> length (cards st) = length (cards (fst w))"
  by (auto simp: flip_def bump_def split: prod.splits if_splits sum.splits)

lemma flipTrigger_frame:
  assumes "flipTrigger ts s = Inr (s', fl)"
  shows "clock s' = clock s \<and> hover s' = hover s \<and> drag s' = drag s \<and> mouse s' = mouse s \<and>
         focus (store s') = focus (store s) \<and>
         length (cards (store s')) = length (cards (store s)) \<and>
         (fl = [] \<and> s' = s \<or> fl = [FlipCall (focus (store s))])"
  using assms
  by (auto simp: flipTrigger_def Let_def dest: flip_frame split: if_splits sum.splits prod.splits)

lemma flipTrigger_fires:
  assumes "flipTrigger ts s = Inr (s', fl)" "fl \<noteq> []"
  shows "5 < elapsed (clock s) \<and> 0 < cycleAt (clock s) (elapsed (clock s)) \<and>
         nthDigit ts 0 (cycleAt (clock s) (elapsed (clock s))) = Inr (Some 9) \<and>
         nthDigit ts 1 (cycleAt (clock s) (elapsed (clock s))) = Inr (Some 1) \<and>
         nthDigit ts 1 (cycleAt (clock s) (prevElapsed (clock s))) = Inr (Some 0)"
  using assms
  by (auto simp: flipTrigger_def Let_def split: if_splits sum.splits prod.splits)

text \<open>
  A frame that the gate stops writes nothing; a paused frame that passes it adds the
  frame's time to \<^verbatim>\<open>animOffset\<close> and neither flips nor animates the idle cycle.
\<close>

lemma frame_gated:
  "\<not> tickDue (updateClock inp (clock s)) \<Longrightarrow>
   frame ts inp s = \<lparr>after = beginFrame inp s, effects = [], fault = None\<rparr>"
  by (simp add: frame_def Let_def beginFrame_fields)

lemma frame_paused:
  assumes "tickDue (updateClock inp (clock s))" "paused s"
  shows "after (frame ts inp s) =
           (beginFrame inp s)\<lparr>clock := (updateClock inp (clock s))\<lparr>animOffset :=
              animOffset (clock s) + (elapsedTime inp - elapsed (clock s))\<rparr>\<rparr>"
    and "flipCalls (effects (frame ts inp s)) = []"
    and "springWrites IdleCycle (effects (frame ts inp s)) = []"
    and "fault (frame ts inp s) = None"
  using assms
  by (simp_all add: frame_def Let_def beginFrame_fields paused_beginFrame updateClock_fields
      flipCalls_append springWrites_append)

lemma frame_active_clock:
  assumes "\<not> paused s"
  shows "clock (after (frame ts inp s)) = updateClock inp (clock s)"
  using assms
  by (auto simp: frame_def Let_def beginFrame_fields paused_beginFrame
      dest: flipTrigger_frame split: sum.splits prod.splits)

subsection \<open>Pause and the animation offset\<close>

text \<open>
  What a frame does to the clock, for a frame whose time is not before the last one
  (\<open>elapsed \<ge> prevElapsed\<close>): \<^verbatim>\<open>animOffset\<close> does not decrease; it changes only on a frame
  where the focused card is hovered or is the drag target, and that passes the tick gate;
  on such a frame the effective time \<open>elapsed - animOffset\<close> is what it was after the last
  frame, and on every other frame (a paused frame stopped by the gate included) it
  advances by that frame's \<open>elapsed - prevElapsed\<close>.
\<close>

theorem animOffset_frame:
  assumes "elapsed (clock s) \<le> elapsedTime inp"
  shows "prevElapsed (clock (after (frame ts inp s))) = elapsed (clock s) \<and>
         elapsed (clock (after (frame ts inp s))) = elapsedTime inp \<and>
         animOffset (clock s) \<le> animOffset (clock (after (frame ts inp s))) \<and>
         (animOffset (clock (after (frame ts inp s))) \<noteq> animOffset (clock s) \<longrightarrow>
            paused s \<and> tickDue (updateClock inp (clock s))) \<and>
         elapsed (clock (after (frame ts inp s))) - animOffset (clock (after (frame ts inp s))) =
           elapsed (clock s) - animOffset (clock s)
           + (if paused s \<and> tickDue (updateClock inp (clock s)) then 0
              else elapsedTime inp - elapsed (clock s))"
proof (cases "tickDue (updateClock inp (clock s))")
  case False
  then show ?thesis
    by (simp add: frame_gated beginFrame_fields updateClock_fields)
next
  case due: True
  show ?thesis
  proof (cases "paused s")
    case True
    with due assms show ?thesis
      by (simp add: frame_paused(1) updateClock_fields)
  next
    case False
    then show ?thesis
      by (simp add: frame_active_clock updateClock_fields)
  qed
qed

text \<open>
  An instance: card 0, in focus, is hovered; the last frame was at 2 s, this one is at
  3 s and passes the gate. One second goes to \<^verbatim>\<open>animOffset\<close> and the effective time stays 2.
\<close>

theorem animOffset_frame_witness:
  "elapsed (clock (onPointerOver 0 (sceneAt 2 0))) \<le> elapsedTime (frameAt 3) \<and>
   paused (onPointerOver 0 (sceneAt 2 0)) \<and>
   animOffset (clock (after (frame decimalToString (frameAt 3) (onPointerOver 0 (sceneAt 2 0))))) = 1 \<and>
   elapsed (clock (after (frame decimalToString (frameAt 3) (onPointerOver 0 (sceneAt 2 0)))))
     - animOffset (clock (after (frame decimalToString (frameAt 3) (onPointerOver 0 (sceneAt 2 0)))))
     = 2"
proof -
  have p: "paused (onPointerOver 0 (sceneAt 2 0))"
    by (simp add: paused_def hoverAt_def onPointerOver_def splice1_def scene_defs)
  have d: "tickDue (updateClock (frameAt 3) (clock (onPointerOver 0 (sceneAt 2 0))))"
    by (simp add: tickDue_def updateClock_def onPointerOver_def scene_defs)
  have e: "elapsed (clock (onPointerOver 0 (sceneAt 2 0))) = 2"
          "animOffset (clock (onPointerOver 0 (sceneAt 2 0))) = 0"
          "elapsedTime (frameAt 3) = 3"
    by (simp_all add: onPointerOver_def scene_defs)
  show ?thesis
    using animOffset_frame[of "onPointerOver 0 (sceneAt 2 0)" "frameAt 3" decimalToString] p d
    by (simp add: e)
qed

text \<open>
  C7, at the input where the code departs from it: the focused card is hovered, the last
  frame was at 30 s, the next frames are at 30.02 s and 30.06 s. At 30.02 s the tick counter
  takes the frame (\<open>30.02 - 0 > tps\<close>), \<^verbatim>\<open>lastTick\<close> becomes 30.02 and the gate returns
  before the accumulation, while \<^verbatim>\<open>prevElapsed\<close> and \<^verbatim>\<open>elapsed\<close> have moved: the effective time
  goes from 30 to 30.02 during the pause. The frame at 30.06 s passes the gate and adds
  only its own step, 0.04 s, to \<^verbatim>\<open>animOffset\<close>: of 0.06 s of pause 0.02 s are lost for good,
  and the effective time stays at 30.02 instead of 30.
\<close>

theorem effective_time_advances_on_gated_pause:
  "paused (onPointerOver 0 (sceneAt 30 0)) \<and>
   elapsed (clock (onPointerOver 0 (sceneAt 30 0)))
     - animOffset (clock (onPointerOver 0 (sceneAt 30 0))) = 30 \<and>
   elapsed (clock (after (frame decimalToString (frameAt 30.02) (onPointerOver 0 (sceneAt 30 0)))))
     - animOffset (clock (after (frame decimalToString (frameAt 30.02) (onPointerOver 0 (sceneAt 30 0)))))
     = 30.02 \<and>
   paused (after (frame decimalToString (frameAt 30.02) (onPointerOver 0 (sceneAt 30 0)))) \<and>
   animOffset (clock (after (frame decimalToString (frameAt 30.06)
     (after (frame decimalToString (frameAt 30.02) (onPointerOver 0 (sceneAt 30 0))))))) = 0.04 \<and>
   elapsed (clock (after (frame decimalToString (frameAt 30.06)
     (after (frame decimalToString (frameAt 30.02) (onPointerOver 0 (sceneAt 30 0)))))))
     - animOffset (clock (after (frame decimalToString (frameAt 30.06)
         (after (frame decimalToString (frameAt 30.02) (onPointerOver 0 (sceneAt 30 0)))))))
     = 30.02"
proof -
  define a where "a = onPointerOver 0 (sceneAt 30 0)"
  define i1 where "i1 = frameAt 30.02"
  define i2 where "i2 = frameAt 30.06"
  define b where "b = after (frame decimalToString i1 a)"
  have p: "paused a"
    by (simp add: a_def paused_def hoverAt_def onPointerOver_def splice1_def scene_defs)
  have ca: "clock a = \<lparr>tick = 0, lastTick = 0, tps = 30, elapsed = 30, prevElapsed = 30,
      animOffset = 0\<rparr>"
    by (simp add: a_def onPointerOver_def scene_defs)
  have d: "\<not> tickDue (updateClock i1 (clock a))"
    by (simp add: ca i1_def tickDue_def updateClock_def frameAt_def)
  have b: "b = beginFrame i1 a"
    unfolding b_def frame_gated[OF d] by simp
  have cb: "clock b = \<lparr>tick = 1, lastTick = 30.02, tps = 30, elapsed = 30.02, prevElapsed = 30,
      animOffset = 0\<rparr>"
    by (simp add: b beginFrame_fields ca i1_def updateClock_def frameAt_def)
  have pb: "paused b"
    using p by (simp add: b paused_beginFrame)
  have d2: "tickDue (updateClock i2 (clock b))"
    by (simp add: cb i2_def tickDue_def updateClock_def frameAt_def)
  have cc: "clock (after (frame decimalToString i2 b)) =
      (updateClock i2 (clock b))\<lparr>animOffset := animOffset (clock b) + (elapsedTime i2 - elapsed (clock b))\<rparr>"
    by (simp add: frame_paused(1)[OF d2 pb])
  have el: "elapsedTime i2 = 30.06"
    by (simp add: i2_def frameAt_def)
  have r: "elapsed (clock a) - animOffset (clock a) = 30"
    "elapsed (clock b) - animOffset (clock b) = 30.02"
    "animOffset (clock (after (frame decimalToString i2 b))) = 0.04"
    "elapsed (clock (after (frame decimalToString i2 b)))
       - animOffset (clock (after (frame decimalToString i2 b))) = 30.02"
    by (simp_all add: ca cb cc updateClock_fields el)
  from p r(1) r(2)[unfolded b_def] pb[unfolded b_def] r(3,4)[unfolded b_def]
  have "paused a \<and> elapsed (clock a) - animOffset (clock a) = 30 \<and>
    elapsed (clock (after (frame decimalToString i1 a)))
      - animOffset (clock (after (frame decimalToString i1 a))) = 30.02 \<and>
    paused (after (frame decimalToString i1 a)) \<and>
    animOffset (clock (after (frame decimalToString i2 (after (frame decimalToString i1 a))))) = 0.04 \<and>
    elapsed (clock (after (frame decimalToString i2 (after (frame decimalToString i1 a)))))
      - animOffset (clock (after (frame decimalToString i2 (after (frame decimalToString i1 a))))) = 30.02"
    by blast
  then show ?thesis
    unfolding a_def i1_def i2_def .
qed

subsection \<open>Dragging\<close>

lemma map_filter_single:
  "List.map_filter (\<lambda>i. if i = d then Some (g i) else None) [0..<n] = (if d < n then [g d] else [])"
  by (induction n) (auto simp: List.map_filter_def less_Suc_eq)




lemma tickDue_frameAt:
  "lastTick c = 0 \<Longrightarrow> 1 / 30 \<le> t \<Longrightarrow> t \<le> 30 \<Longrightarrow> tickDue (updateClock (frameAt t) c)"
  by (simp add: tickDue_def updateClock_def frameAt_def Let_def)


lemma startAll_idleCycle:
  "map fst (startAll (idleCycle s) n) = (if focus (store s) < n then [focus (store s)] else [])"
proof -
  have "(\<lambda>i. map_option (Pair i) (idleCycle s i)) =
        (\<lambda>i. if i = focus (store s) then Some (i, the (idleCycle s (focus (store s)))) else None)"
    by (auto simp: idleCycle_def fun_eq_iff Let_def)
  then show ?thesis
    by (simp add: startAll_def map_filter_single)
qed

lemma flipTrigger_warmup: "elapsed (clock s) \<le> 5 \<Longrightarrow> flipTrigger ts s = Inr (s, [])"
  by (simp add: flipTrigger_def Let_def)

lemma frame_active:
  assumes "tickDue (updateClock inp (clock s))" "\<not> paused s"
    and "flipTrigger ts (beginFrame inp s) = Inr (s', fl)"
  shows "after (frame ts inp s) = s'"
    and "fault (frame ts inp s) = None"
    and "flipCalls (effects (frame ts inp s)) = flipCalls fl"
    and "springWrites IdleCycle (effects (frame ts inp s)) =
           startAll (idleCycle s') (length (cards (store s)))"
  using assms flipTrigger_frame[OF assms(3)]
  by (auto simp: frame_def Let_def beginFrame_fields paused_beginFrame flipCalls_append
      springWrites_append)


subsection \<open>The tick gate\<close>

text \<open>
  C2, at the input where the code departs from it: with \<^verbatim>\<open>tps\<close> at 30, the frames at 1 s
  and at 1.001 s are one millisecond apart, less than \<open>1 / 30\<close> s, and both pass the gate
  and write the idle-cycle target of card 0. \<^verbatim>\<open>lastTick\<close> only moves when
  \<open>t - lastTick > tps\<close>, that is every 30 seconds, so the gate stays open in between.
\<close>

theorem tick_gate_passes_frames_one_millisecond_apart:
  "elapsedTime (frameAt 1.001) - elapsedTime (frameAt 1) < 1 / tpsControl (frameAt 1.001) \<and>
   map fst (springWrites IdleCycle (effects (frame decimalToString (frameAt 1) (initialScene 4)))) = [0] \<and>
   map fst (springWrites IdleCycle (effects (frame decimalToString (frameAt 1.001)
     (after (frame decimalToString (frameAt 1) (initialScene 4)))))) = [0]"
proof -
  have d1: "tickDue (updateClock (frameAt 1) (clock (initialScene 4)))"
    by (rule tickDue_frameAt) (simp_all add: scene_defs)
  have p1: "\<not> paused (initialScene 4)"
    by (simp add: paused_def hoverAt_def scene_defs)
  have f1: "flipTrigger decimalToString (beginFrame (frameAt 1) (initialScene 4)) =
            Inr (beginFrame (frameAt 1) (initialScene 4), [])"
    by (rule flipTrigger_warmup) (simp add: beginFrame_fields updateClock_fields frameAt_def)
  have a1: "after (frame decimalToString (frameAt 1) (initialScene 4)) =
            beginFrame (frameAt 1) (initialScene 4)"
    by (rule frame_active(1)[OF d1 p1 f1])
  have d2: "tickDue (updateClock (frameAt 1.001) (clock (beginFrame (frameAt 1) (initialScene 4))))"
    by (rule tickDue_frameAt)
      (simp_all add: beginFrame_fields updateClock_def frameAt_def Let_def scene_defs)
  have p2: "\<not> paused (beginFrame (frameAt 1) (initialScene 4))"
    using p1 by (simp add: paused_beginFrame)
  have f2: "flipTrigger decimalToString
              (beginFrame (frameAt 1.001) (beginFrame (frameAt 1) (initialScene 4))) =
            Inr (beginFrame (frameAt 1.001) (beginFrame (frameAt 1) (initialScene 4)), [])"
    by (rule flipTrigger_warmup) (simp add: beginFrame_fields updateClock_fields frameAt_def)
  have t: "elapsedTime (frameAt 1.001) - elapsedTime (frameAt 1) < 1 / tpsControl (frameAt 1.001)"
    by (simp add: frameAt_def)
  show ?thesis
    unfolding a1 frame_active(4)[OF d1 p1 f1] frame_active(4)[OF d2 p2 f2] startAll_idleCycle
    using t by (simp add: beginFrame_fields scene_defs)
qed

section \<open>The flip trigger\<close>

subsection \<open>The digits of the rendering\<close>

lemma split_dot_nonempty: "split_dot cs \<noteq> []"
  by (induction cs) (auto split: list.splits)

lemma split_dot_Cons:
  "c \<noteq> CHR ''.'' \<Longrightarrow> split_dot (c # cs) = (c # hd (split_dot cs)) # tl (split_dot cs)"
  using split_dot_nonempty[of cs] by (cases "split_dot cs") simp_all

lemma digit_cases:
  assumes "d < (10::nat)"
  shows "d = 0 \<or> d = 1 \<or> d = 2 \<or> d = 3 \<or> d = 4 \<or> d = 5 \<or> d = 6 \<or> d = 7 \<or> d = 8 \<or> d = 9"
  using assms by arith

lemma digitChar_not_dot: "d < 10 \<Longrightarrow> digitChar d \<noteq> CHR ''.''"
  using digit_cases[of d] by (auto simp: digitChar_def)

lemma Number_of_digitChar: "d < 10 \<Longrightarrow> Number_of (Some (digitChar d)) = Some d"
  using digit_cases[of d] by (auto simp: digitChar_def Number_of_def)

lemma fractionDigits_zero: "fractionDigits k 0 = []"
  by (cases k) simp_all

lemma fractionDigits_Suc_pos:
  "0 < r \<Longrightarrow> fractionDigits (Suc k) r =
     digitChar (nat \<lfloor>r * 10\<rfloor>) # fractionDigits k (r * 10 - real (nat \<lfloor>r * 10\<rfloor>))"
  by (simp add: Let_def)

text \<open>The first fractional digit of a number strictly between 0 and 1.\<close>

lemma first_digit:
  assumes "0 < r" "r < 1"
  shows "nat \<lfloor>r * 10\<rfloor> < 10"
    and "real (nat \<lfloor>r * 10\<rfloor>) \<le> r * 10"
    and "r * 10 < real (nat \<lfloor>r * 10\<rfloor>) + 1"
proof -
  have nn: "0 \<le> \<lfloor>r * 10\<rfloor>"
    using assms(1) by simp
  have "\<lfloor>r * 10\<rfloor> < 10"
    using assms(2) by (simp add: floor_less_iff)
  with nn show "nat \<lfloor>r * 10\<rfloor> < 10"
    by arith
  have eq: "real (nat \<lfloor>r * 10\<rfloor>) = of_int \<lfloor>r * 10\<rfloor>"
    using nn by simp
  show "real (nat \<lfloor>r * 10\<rfloor>) \<le> r * 10"
    unfolding eq by (rule of_int_floor_le)
  show "r * 10 < real (nat \<lfloor>r * 10\<rfloor>) + 1"
    unfolding eq by linarith
qed

text \<open>
  From \<^verbatim>\<open>1e-6\<close> up to, but not including, 1 the rendering is positional, \<^verbatim>\<open>0.ddd...\<close>, and
  \<^verbatim>\<open>nthDigit\<close> reads the digits of the number.
\<close>

lemma decimalToString_positional:
  assumes "1 / 10 ^ 6 \<le> r" "r < 1"
  shows "decimalToString r =
           CHR ''0'' # CHR ''.'' # digitChar (nat \<lfloor>r * 10\<rfloor>)
             # fractionDigits 16 (r * 10 - real (nat \<lfloor>r * 10\<rfloor>))"
proof -
  have r0: "0 < r"
    using assms(1) by (rule less_le_trans[rotated]) simp
  have fl: "\<lfloor>r\<rfloor> = 0"
    using r0 assms(2) by (simp add: floor_eq_iff)
  have big: "\<not> 10 ^ 21 \<le> r"
    using assms(2) by simp
  have small: "\<not> r < 1 / 10 ^ 6"
    using assms(1) by simp
  have f: "fractionDigits 17 r =
           digitChar (nat \<lfloor>r * 10\<rfloor>) # fractionDigits 16 (r * 10 - real (nat \<lfloor>r * 10\<rfloor>))"
    using fractionDigits_Suc_pos[OF r0, of 16] by (simp add: eval_nat_numeral)
  have a: "\<bar>r\<bar> = r"
    using r0 by simp
  show ?thesis
    unfolding decimalToString_def Let_def a fl
    using r0 small big by (simp add: f digitChar_def)
qed

lemma split_positional:
  assumes "d < 10"
  shows "split_dot (CHR ''0'' # CHR ''.'' # digitChar d # tail) =
           ''0'' # (digitChar d # hd (split_dot tail)) # tl (split_dot tail)"
proof -
  have "split_dot (CHR ''0'' # CHR ''.'' # digitChar d # tail) =
        (CHR ''0'' # hd (split_dot (CHR ''.'' # digitChar d # tail)))
          # tl (split_dot (CHR ''.'' # digitChar d # tail))"
    by (rule split_dot_Cons) simp
  also have "split_dot (CHR ''.'' # digitChar d # tail) = [] # split_dot (digitChar d # tail)"
    by simp
  also have "split_dot (digitChar d # tail) =
             (digitChar d # hd (split_dot tail)) # tl (split_dot tail)"
    by (rule split_dot_Cons[OF digitChar_not_dot[OF assms]])
  finally show ?thesis
    by simp
qed

lemma nthDigit_positional:
  assumes "1 / 10 ^ 6 \<le> r" "r < 1"
  shows "nthDigit decimalToString 0 r = Inr (Some (nat \<lfloor>r * 10\<rfloor>))"
    and "nthDigit decimalToString 1 r =
           Inr (if r * 10 - real (nat \<lfloor>r * 10\<rfloor>) = 0 then None
                else Some (nat \<lfloor>(r * 10 - real (nat \<lfloor>r * 10\<rfloor>)) * 10\<rfloor>))"
proof -
  have r0: "0 < r"
    using assms(1) by (rule less_le_trans[rotated]) simp
  note d = first_digit[OF r0 assms(2)]
  define q where "q = r * 10 - real (nat \<lfloor>r * 10\<rfloor>)"
  have q: "0 \<le> q" "q < 1"
    using d(2,3) unfolding q_def by linarith+
  have s: "split_dot (decimalToString r) =
           ''0'' # (digitChar (nat \<lfloor>r * 10\<rfloor>) # hd (split_dot (fractionDigits 16 q)))
             # tl (split_dot (fractionDigits 16 q))"
    unfolding decimalToString_positional[OF assms] q_def[symmetric]
    by (rule split_positional[OF d(1)])
  show "nthDigit decimalToString 0 r = Inr (Some (nat \<lfloor>r * 10\<rfloor>))"
    by (simp add: nthDigit_def s charAt_def Number_of_digitChar[OF d(1)])
  have "nthDigit decimalToString 1 r =
          Inr (if q = 0 then None else Some (nat \<lfloor>q * 10\<rfloor>))"
  proof (cases "q = 0")
    case True
    then show ?thesis
      by (simp add: nthDigit_def s charAt_def fractionDigits_zero Number_of_def)
  next
    case False
    with q have q0: "0 < q"
      by simp
    have f: "fractionDigits 16 q =
             digitChar (nat \<lfloor>q * 10\<rfloor>) # fractionDigits 15 (q * 10 - real (nat \<lfloor>q * 10\<rfloor>))"
      using fractionDigits_Suc_pos[OF q0, of 15] by (simp add: eval_nat_numeral)
    have h: "hd (split_dot (fractionDigits 16 q)) =
             digitChar (nat \<lfloor>q * 10\<rfloor>)
               # hd (split_dot (fractionDigits 15 (q * 10 - real (nat \<lfloor>q * 10\<rfloor>))))"
      unfolding f
      by (simp only: split_dot_Cons[OF digitChar_not_dot[OF first_digit(1)[OF q0 q(2)]]] list.sel)
    show ?thesis
      using False
      by (simp add: nthDigit_def s charAt_def h Number_of_digitChar[OF first_digit(1)[OF q0 q(2)]])
  qed
  then show "nthDigit decimalToString 1 r =
           Inr (if r * 10 - real (nat \<lfloor>r * 10\<rfloor>) = 0 then None
                else Some (nat \<lfloor>(r * 10 - real (nat \<lfloor>r * 10\<rfloor>)) * 10\<rfloor>))"
    by (simp only: q_def)
qed

lemma nthDigit_window:
  assumes "real (10 * a + b) / 100 \<le> r" "r < real (10 * a + b + 1) / 100"
    and "r * 10 \<noteq> real a" "0 < a" "a < 10" "b < 10"
  shows "nthDigit decimalToString 0 r = Inr (Some a)"
    and "nthDigit decimalToString 1 r = Inr (Some b)"
proof -
  have lo: "1 / 10 ^ 6 \<le> r"
    using assms(1,4) by (simp add: field_simps)
  have hi: "r < 1"
    using assms(2,5,6) by simp
  have f1: "\<lfloor>r * 10\<rfloor> = int a"
  proof (rule floor_unique)
    show "of_int (int a) \<le> r * 10" using assms(1) by simp
    show "r * 10 < of_int (int a) + 1" using assms(2,6) by simp
  qed
  then have n1: "nat \<lfloor>r * 10\<rfloor> = a"
    by simp
  have q: "real b / 10 \<le> r * 10 - real a" "r * 10 - real a < real (b + 1) / 10"
    using assms(1,2) by simp_all
  have q0: "r * 10 - real a \<noteq> 0"
    using assms(3) by simp
  have f2: "\<lfloor>(r * 10 - real a) * 10\<rfloor> = int b"
  proof (rule floor_unique)
    show "of_int (int b) \<le> (r * 10 - real a) * 10" using q(1) by simp
    show "(r * 10 - real a) * 10 < of_int (int b) + 1" using q(2) by simp
  qed
  show "nthDigit decimalToString 0 r = Inr (Some a)"
    by (simp only: nthDigit_positional(1)[OF lo hi] n1)
  show "nthDigit decimalToString 1 r = Inr (Some b)"
    using q0 by (simp only: nthDigit_positional(2)[OF lo hi] n1 f2 nat_int if_False)
qed

text \<open>The number 1 is rendered \<^verbatim>\<open>"1"\<close>: there is no second piece to index.\<close>

lemma nthDigit_of_one: "nthDigit decimalToString ntn 1 = Inl TypeError"
  by (simp add: nthDigit_def decimalToString_def digitChar_def fractionDigits_zero)

text \<open>
  Below \<^verbatim>\<open>1e-6\<close> the rendering has an exponent. \<^verbatim>\<open>1e-7\<close> is rendered \<^verbatim>\<open>"1e-7"\<close>, without a
  point, and \<^verbatim>\<open>nthDigit\<close> raises there as it does at 1.
\<close>

lemma scaleUp_numeral:
  "scaleUp (numeral k) a e =
     (if 1 \<le> a then Some (a, e) else scaleUp (pred_numeral k) (a * 10) (Suc e))"
  by (simp add: numeral_eq_Suc)

lemma decimalToString_exponent: "decimalToString (1 / 10 ^ 7) = ''1e-7''"
  by (simp add: decimalToString_def mantissaDigits_def digitChar_def scaleUp_numeral
      fractionDigits_zero)

lemma nthDigit_of_exponent: "nthDigit decimalToString ntn (1 / 10 ^ 7) = Inl TypeError"
  using decimalToString_exponent by (simp add: nthDigit_def)

text \<open>
  The mantissa of a number from \<^verbatim>\<open>1.91e-7\<close> up to \<^verbatim>\<open>1.92e-7\<close> is printed \<^verbatim>\<open>1.91...\<close>: there
  \<^verbatim>\<open>nthDigit\<close> reads the digits 9 and 1 of the mantissa, not of the number.
\<close>

lemma split_dot_prefix:
  "CHR ''.'' \<notin> set w \<Longrightarrow> split_dot (w @ CHR ''.'' # xs) = w # split_dot xs"
  by (induction w) auto

lemma nthDigit_of_pieces:
  assumes "ts r = w @ CHR ''.'' # digitChar a # digitChar b # tail"
    and "CHR ''.'' \<notin> set w" "a < 10" "b < 10"
  shows "nthDigit ts 0 r = Inr (Some a)"
    and "nthDigit ts 1 r = Inr (Some b)"
proof -
  have "split_dot (digitChar a # digitChar b # tail) =
        (digitChar a # hd (split_dot (digitChar b # tail))) # tl (split_dot (digitChar b # tail))"
    by (rule split_dot_Cons[OF digitChar_not_dot[OF assms(3)]])
  also have "split_dot (digitChar b # tail) =
        (digitChar b # hd (split_dot tail)) # tl (split_dot tail)"
    by (rule split_dot_Cons[OF digitChar_not_dot[OF assms(4)]])
  finally have "split_dot (digitChar a # digitChar b # tail) =
        (digitChar a # digitChar b # hd (split_dot tail)) # tl (split_dot tail)"
    by simp
  then have s: "split_dot (ts r) =
        w # (digitChar a # digitChar b # hd (split_dot tail)) # tl (split_dot tail)"
    unfolding assms(1) split_dot_prefix[OF assms(2)] by simp
  show "nthDigit ts 0 r = Inr (Some a)"
    by (simp add: nthDigit_def s charAt_def Number_of_digitChar[OF assms(3)])
  show "nthDigit ts 1 r = Inr (Some b)"
    by (simp add: nthDigit_def s charAt_def Number_of_digitChar[OF assms(4)])
qed

lemma scaleUp_finds:
  "0 < a \<Longrightarrow> 1 \<le> a * 10 ^ n \<Longrightarrow> a * 10 ^ n < 10 \<Longrightarrow>
   scaleUp (Suc (n + fuel)) a e = Some (a * 10 ^ n, e + n)"
proof (induction n arbitrary: a e)
  case 0
  then show ?case
    by simp
next
  case (Suc n)
  have "a * 10 * 10 ^ n < 10"
    using Suc.prems(3) by (simp add: mult.assoc)
  moreover have "a * 10 * 1 \<le> a * 10 * 10 ^ n"
    using Suc.prems(1) by (intro mult_left_mono) simp_all
  ultimately have "a * 10 * 1 < 10"
    by (rule le_less_trans[rotated])
  then have a1: "\<not> 1 \<le> a"
    by simp
  have "scaleUp (Suc (n + fuel)) (a * 10) (Suc e) = Some (a * 10 * 10 ^ n, Suc e + n)"
    using Suc.prems by (intro Suc.IH) (simp_all add: mult.assoc)
  with a1 show ?case
    by (simp add: mult.assoc)
qed

lemma fractionDigits_two:
  assumes "0 < q" "q * 10 \<noteq> real (nat \<lfloor>q * 10\<rfloor>)"
  shows "\<exists>tail. fractionDigits (Suc (Suc k)) q =
           digitChar (nat \<lfloor>q * 10\<rfloor>)
             # digitChar (nat \<lfloor>(q * 10 - real (nat \<lfloor>q * 10\<rfloor>)) * 10\<rfloor>) # tail"
  using assms by (simp add: Let_def)

lemma mantissa_window:
  assumes "1.91 \<le> m" "m < 1.92"
  shows "\<exists>tail. mantissaDigits m = ''1'' @ CHR ''.'' # digitChar 9 # digitChar 1 # tail"
proof -
  have fl: "\<lfloor>m\<rfloor> = 1"
    using assms by (intro floor_unique) simp_all
  define q where "q = m - 1"
  have q: "0.91 \<le> q" "q < 0.92"
    using assms by (simp_all add: q_def)
  have "\<lfloor>q * 10\<rfloor> = 9"
    using q by (intro floor_unique) simp_all
  then have n1: "nat \<lfloor>q * 10\<rfloor> = 9"
    by simp
  have "\<lfloor>(q * 10 - 9) * 10\<rfloor> = 1"
    using q by (intro floor_unique) simp_all
  then have n2: "nat \<lfloor>(q * 10 - real (9::nat)) * 10\<rfloor> = 1"
    by simp
  have q0: "0 < q" "q * 10 \<noteq> real (nat \<lfloor>q * 10\<rfloor>)"
    using q by (simp_all add: n1)
  have s: "(16::nat) = Suc (Suc 14)"
    by simp
  obtain tail where f: "fractionDigits 16 q = digitChar 9 # digitChar 1 # tail"
    using fractionDigits_two[OF q0, of 14] unfolding n1 n2 s by blast
  have "mantissaDigits m = ''1'' @ CHR ''.'' # digitChar 9 # digitChar 1 # tail"
    unfolding mantissaDigits_def Let_def fl
    by (simp add: q_def[symmetric] f digitChar_def)
  then show ?thesis
    by blast
qed

lemma digits_of_mantissa_window:
  assumes "1.91 / 10 ^ 7 \<le> r" "r < 1.92 / 10 ^ 7"
  shows "nthDigit decimalToString 0 r = Inr (Some 9)"
    and "nthDigit decimalToString 1 r = Inr (Some 1)"
proof -
  have r0: "0 < r"
    using assms(1) by (rule less_le_trans[rotated]) simp
  have m: "1.91 \<le> r * 10 ^ 7" "r * 10 ^ 7 < 1.92"
    using assms by (simp_all add: field_simps)
  define mm where "mm = r * 10 ^ 7"
  have sc: "scaleUp 400 r 0 = Some (mm, 7)"
    using scaleUp_finds[of r 7 392 0] r0 m by (simp add: mm_def)
  have small: "r < 1 / 10 ^ 6"
    using assms(2) by simp
  have a: "\<bar>r\<bar> = r"
    using r0 by simp
  obtain tail where mt: "mantissaDigits mm =
      ''1'' @ CHR ''.'' # digitChar 9 # digitChar 1 # tail"
    using mantissa_window[OF m] unfolding mm_def by blast
  have ds: "decimalToString r =
      ''1'' @ CHR ''.'' # digitChar 9 # digitChar 1 # (tail @ ''e-7'')"
    unfolding decimalToString_def Let_def a
    using r0 small by (simp add: sc mt digitChar_def)
  show "nthDigit decimalToString 0 r = Inr (Some 9)"
    by (rule nthDigit_of_pieces(1)[of decimalToString r "''1''" 9 1 "tail @ ''e-7''", OF ds]) simp_all
  show "nthDigit decimalToString 1 r = Inr (Some 1)"
    by (rule nthDigit_of_pieces(2)[of decimalToString r "''1''" 9 1 "tail @ ''e-7''", OF ds]) simp_all
qed

text \<open>The minus sign goes to the first piece: a negative number has the digits of its magnitude.\<close>

lemma nthDigit_minus:
  assumes "1 / 10 ^ 6 \<le> r" "r < 1"
  shows "nthDigit decimalToString n (- r) = nthDigit decimalToString n r"
proof -
  have r0: "0 < r"
    using assms(1) by (rule less_le_trans[rotated]) simp
  have a: "\<bar>- r\<bar> = r" "\<bar>r\<bar> = r"
    using r0 by simp_all
  have big: "\<not> 10 ^ 21 \<le> r"
    using assms(2) by simp
  have small: "\<not> r < 1 / 10 ^ 6"
    using assms(1) by simp
  have "decimalToString (- r) = CHR ''-'' # decimalToString r"
    unfolding decimalToString_def Let_def a
    using r0 small big by simp
  moreover have "split_dot (CHR ''-'' # decimalToString r) =
      (CHR ''-'' # hd (split_dot (decimalToString r))) # tl (split_dot (decimalToString r))"
    by (rule split_dot_Cons) simp
  ultimately have "split_dot (decimalToString (- r)) =
      (CHR ''-'' # hd (split_dot (decimalToString r))) # tl (split_dot (decimalToString r))"
    by simp
  then show ?thesis
    using split_dot_nonempty[of "decimalToString r"]
    by (cases "split_dot (decimalToString r)"; cases "tl (split_dot (decimalToString r))")
      (auto simp: nthDigit_def)
qed

lemma fractionDigits_numeral:
  "fractionDigits (numeral k) r =
     (if r = 0 then []
      else digitChar (nat \<lfloor>r * 10\<rfloor>)
             # fractionDigits (pred_numeral k) (r * 10 - real (nat \<lfloor>r * 10\<rfloor>)))"
  by (simp add: numeral_eq_Suc Let_def)

text \<open>
  The digits that the trigger tests, as conditions on the value: the digits 9 and 1 mean
  the interval from 0.91 to 0.92, and no number from 0.91 up to 1 has 0 as its second
  digit.
\<close>

lemma digits_of_trigger_window:
  assumes "0.91 \<le> r" "r < 0.92"
  shows "nthDigit decimalToString 0 r = Inr (Some 9)"
    and "nthDigit decimalToString 1 r = Inr (Some 1)"
proof -
  have w: "real (10 * 9 + 1) / 100 \<le> r" "r < real (10 * 9 + 1 + 1) / 100" "r * 10 \<noteq> real (9::nat)"
    using assms by simp_all
  show "nthDigit decimalToString 0 r = Inr (Some 9)"
    by (rule nthDigit_window(1)[OF w]) simp_all
  show "nthDigit decimalToString 1 r = Inr (Some 1)"
    by (rule nthDigit_window(2)[OF w]) simp_all
qed

lemma digit_of_window_before:
  assumes "0.90 < r" "r < 0.91"
  shows "nthDigit decimalToString 1 r = Inr (Some 0)"
proof -
  have w: "real (10 * 9 + 0) / 100 \<le> r" "r < real (10 * 9 + 0 + 1) / 100" "r * 10 \<noteq> real (9::nat)"
    using assms by simp_all
  show ?thesis
    by (rule nthDigit_window(2)[OF w]) simp_all
qed

lemma trigger_window_of_digits:
  assumes "1 / 10 ^ 6 \<le> r" "r \<le> 1"
    and "nthDigit decimalToString 0 r = Inr (Some 9)"
    and "nthDigit decimalToString 1 r = Inr (Some 1)"
  shows "0.91 \<le> r \<and> r < 0.92"
proof -
  have "r \<noteq> 1"
    using assms(3) nthDigit_of_one[of 0] by auto
  with assms(2) have hi: "r < 1"
    by simp
  have r0: "0 < r"
    using assms(1) by (rule less_le_trans[rotated]) simp
  define q where "q = r * 10 - real (nat \<lfloor>r * 10\<rfloor>)"
  note d = first_digit[OF r0 hi]
  have n9: "nat \<lfloor>r * 10\<rfloor> = 9"
    using assms(3) nthDigit_positional(1)[OF assms(1) hi] by simp
  have s: "(if q = 0 then None else Some (nat \<lfloor>q * 10\<rfloor>)) = Some 1"
    using assms(4) nthDigit_positional(2)[OF assms(1) hi] by (simp add: q_def)
  then have q0: "q \<noteq> 0" and n1: "nat \<lfloor>q * 10\<rfloor> = 1"
    by (auto split: if_splits)
  have q: "0 < q" "q < 1"
    using d(2,3) q0 unfolding q_def by linarith+
  note e = first_digit[OF q]
  have "1 \<le> q * 10" "q * 10 < 2"
    using e(2,3) by (simp_all add: n1)
  moreover have "q = r * 10 - 9"
    by (simp add: q_def n9)
  ultimately show ?thesis
    by simp
qed

lemma second_digit_after_window:
  assumes "0.91 \<le> r" "r \<le> 1"
  shows "nthDigit decimalToString 1 r \<noteq> Inr (Some 0)"
proof (cases "r = 1")
  case True
  then show ?thesis
    by (simp add: nthDigit_of_one)
next
  case False
  with assms(2) have hi: "r < 1"
    by simp
  have lo: "1 / 10 ^ 6 \<le> r"
    using assms(1) by simp
  have f: "\<lfloor>r * 10\<rfloor> = 9"
    using assms(1) hi by (intro floor_unique) simp_all
  then have n9: "nat \<lfloor>r * 10\<rfloor> = 9"
    by simp
  have q: "1 \<le> (r * 10 - 9) * 10"
    using assms(1) by simp
  then have "1 \<le> \<lfloor>(r * 10 - 9) * 10\<rfloor>"
    by (simp add: le_floor_iff)
  then have nz: "nat \<lfloor>(r * 10 - 9) * 10\<rfloor> \<noteq> 0"
    by simp
  have q0: "r * 10 - real (9::nat) \<noteq> 0"
    using q by auto
  have "nthDigit decimalToString 1 r = Inr (Some (nat \<lfloor>(r * 10 - real (9::nat)) * 10\<rfloor>))"
    using q0 by (simp only: nthDigit_positional(2)[OF lo hi] n9 if_False)
  with nz show ?thesis
    by simp
qed

subsection \<open>Bounds of the sine at the frame times of the concrete runs\<close>

lemma lessThan_10: "{..<10::nat} = {0, 1, 2, 3, 4, 5, 6, 7, 8, 9}"
  by auto

lemma sin_poly10:
  "(\<Sum>m<10. sin_coeff m * x ^ m) = x - x^3/6 + x^5/120 - x^7/5040 + x^9/362880" for x :: real
  by (simp add: lessThan_10 sin_coeff_def fact_numeral)

lemma sin_window:
  fixes x :: real
  shows "\<bar>sin x - (x - x^3/6 + x^5/120 - x^7/5040 + x^9/362880)\<bar> \<le> \<bar>x\<bar>^10 / 3628800"
  using Maclaurin_sin_bound[of x 10] by (simp add: sin_poly10 fact_numeral)

lemma sin_lower:
  fixes x :: real
  shows "x - x^3/6 + x^5/120 - x^7/5040 + x^9/362880 - \<bar>x\<bar>^10 / 3628800 \<le> sin x"
  using sin_window[of x] by linarith

lemma sin_upper:
  fixes x :: real
  shows "sin x \<le> x - x^3/6 + x^5/120 - x^7/5040 + x^9/362880 + \<bar>x\<bar>^10 / 3628800"
  using sin_window[of x] by linarith

lemma cycle_13: "0.83 < cycleAt (clock (sceneAt t 10)) 13 \<and> cycleAt (clock (sceneAt t 10)) 13 < 0.84"
  using sin_lower[of "0.99"] sin_upper[of "0.99"]
  by (simp add: cycleAt_def sceneAt_def power_divide)

lemma cycle_14: "0.96 < cycleAt (clock (sceneAt t 10)) 14 \<and> cycleAt (clock (sceneAt t 10)) 14 < 0.97"
  using sin_lower[of "1.32"] sin_upper[of "1.32"]
  by (simp add: cycleAt_def sceneAt_def power_divide)

lemma cycle_1345:
  "0.90 < cycleAt (clock (sceneAt t 10)) 13.45 \<and> cycleAt (clock (sceneAt t 10)) 13.45 < 0.91"
  using sin_lower[of "1.1385"] sin_upper[of "1.1385"]
  by (simp add: cycleAt_def sceneAt_def power_divide)

lemma cycle_1350:
  "0.91 < cycleAt (clock (sceneAt t 10)) 13.5 \<and> cycleAt (clock (sceneAt t 10)) 13.5 < 0.92"
  using sin_lower[of "1.155"] sin_upper[of "1.155"]
  by (simp add: cycleAt_def sceneAt_def power_divide)

lemma cycle_1282:
  "0.80 < cycleAt (clock (sceneAt t 10)) 12.82 \<and> cycleAt (clock (sceneAt t 10)) 12.82 < 0.81"
  using sin_lower[of "0.9306"] sin_upper[of "0.9306"]
  by (simp add: cycleAt_def sceneAt_def power_divide)

lemma cycle_16:
  "0.91 < cycleAt (clock (sceneAt t 10)) 16 \<and> cycleAt (clock (sceneAt t 10)) 16 < 0.92"
  using sin_lower[of "1.98"] sin_upper[of "1.98"]
  by (simp add: cycleAt_def sceneAt_def power_divide)

text \<open>The frame times of the run just after a zero crossing.\<close>

lemma cycle_near_zero:
  "1.91 / 10 ^ 7 \<le> cycleAt (clock (sceneAt t 10)) (10 + 58 / 10 ^ 8) \<and>
   cycleAt (clock (sceneAt t 10)) (10 + 58 / 10 ^ 8) < 1.92 / 10 ^ 7"
  using sin_lower[of "1914 / 10 ^ 10"] sin_upper[of "1914 / 10 ^ 10"]
  by (simp add: cycleAt_def sceneAt_def power_divide)

lemma cycle_907:
  "cycleAt (clock (sceneAt t 10)) 9.07 = - sin (0.3069 :: real) \<and>
   0.30 < sin (0.3069 :: real) \<and> sin (0.3069 :: real) < 0.31"
  using sin_lower[of "0.3069"] sin_upper[of "0.3069"]
  by (simp add: cycleAt_def sceneAt_def power_divide)

text \<open>The frame times 13 s and 14 s of the first run below lie on a rising quarter of the sine.\<close>

lemma rising_quarter: "(1.32::real) < pi / 2"
proof (rule ccontr)
  assume "\<not> (1.32::real) < pi / 2"
  then have le: "pi / 2 \<le> (1.32::real)"
    by simp
  have s: "0 \<le> sin (0.66::real)" "sin (0.66::real) \<le> 0.62"
    using sin_lower[of "0.66"] sin_upper[of "0.66"] by (simp_all add: power_divide)
  have "sin (0.66::real) ^ 2 \<le> 0.62 ^ 2"
    using s by (intro power_mono) simp_all
  moreover have "cos (1.32::real) = 1 - 2 * sin (0.66::real) ^ 2"
    using cos_double_sin[of "0.66::real"] by simp
  ultimately have pos: "0 < cos (1.32::real)"
    by (simp add: power2_eq_square)
  have "cos (1.32::real) \<le> cos (pi / 2)"
    using le pi_ge_two by (intro cos_monotone_0_pi_le) simp_all
  with pos show False
    by simp
qed

text \<open>At the frame time 16 s of the second run below the sine is falling.\<close>

lemma falling_at_16: "cos (1.98::real) < 0"
proof -
  have s: "0.83 \<le> sin (0.99::real)"
    using sin_lower[of "0.99"] by (simp add: power_divide)
  have "(0.83::real) ^ 2 \<le> sin (0.99::real) ^ 2"
    using s by (intro power_mono) simp_all
  moreover have "cos (1.98::real) = 1 - 2 * sin (0.99::real) ^ 2"
    using cos_double_sin[of "0.99::real"] by simp
  ultimately show ?thesis
    by (simp add: power2_eq_square)
qed

subsection \<open>When the trigger fires\<close>

lemma cycle_le_one: "cycleAt c t \<le> 1"
  by (simp add: cycleAt_def)

lemma cycleAt_updateClock: "cycleAt (updateClock inp c) t = cycleAt c t"
  by (simp add: cycleAt_def updateClock_fields)

lemma frame_fault:
  assumes "tickDue (updateClock inp (clock s))" "\<not> paused s"
    and "flipTrigger ts (beginFrame inp s) = Inl e"
  shows "fault (frame ts inp s) = Some e"
    and "after (frame ts inp s) = beginFrame inp s"
    and "flipCalls (effects (frame ts inp s)) = []"
    and "springWrites IdleCycle (effects (frame ts inp s)) = []"
  using assms
  by (auto simp: frame_def Let_def beginFrame_fields paused_beginFrame)

lemma flip_call_conditions:
  assumes "flipCalls (effects (frame ts inp s)) \<noteq> []"
  shows "flipCalls (effects (frame ts inp s)) = [focus (store s)] \<and>
         tickDue (updateClock inp (clock s)) \<and> \<not> paused s \<and>
         clock (after (frame ts inp s)) = updateClock inp (clock s) \<and>
         5 < elapsedTime inp \<and>
         0 < cycleAt (clock s) (elapsedTime inp) \<and>
         nthDigit ts 0 (cycleAt (clock s) (elapsedTime inp)) = Inr (Some 9) \<and>
         nthDigit ts 1 (cycleAt (clock s) (elapsedTime inp)) = Inr (Some 1) \<and>
         nthDigit ts 1 (cycleAt (clock s) (elapsed (clock s))) = Inr (Some 0)"
proof -
  have due: "tickDue (updateClock inp (clock s))"
    using assms by (rule contrapos_np) (simp add: frame_gated)
  have np: "\<not> paused s"
    using assms frame_paused(2)[OF due] by blast
  obtain s' fl where ft: "flipTrigger ts (beginFrame inp s) = Inr (s', fl)"
    using assms frame_fault(3)[OF due np]
    by (cases "flipTrigger ts (beginFrame inp s)") auto
  have fc: "flipCalls (effects (frame ts inp s)) = flipCalls fl"
    by (rule frame_active(3)[OF due np ft])
  with assms have ne: "fl \<noteq> []"
    by auto
  with flipTrigger_frame[OF ft] have fl: "fl = [FlipCall (focus (store s))]"
    by (auto simp: beginFrame_fields)
  have ck: "clock (after (frame ts inp s)) = updateClock inp (clock s)"
    by (rule frame_active_clock[OF np])
  from flipTrigger_fires[OF ft ne] fc fl due np ck show ?thesis
    by (simp add: beginFrame_fields updateClock_fields cycleAt_updateClock)
qed

lemma flipTrigger_fire:
  assumes "5 < elapsed (clock s)" "0 < cycleAt (clock s) (elapsed (clock s))"
    and "nthDigit ts 0 (cycleAt (clock s) (elapsed (clock s))) = Inr (Some 9)"
    and "nthDigit ts (Suc 0) (cycleAt (clock s) (elapsed (clock s))) = Inr (Some (Suc 0))"
    and "nthDigit ts (Suc 0) (cycleAt (clock s) (prevElapsed (clock s))) = Inr (Some 0)"
    and "focus (store s) < length (cards (store s))"
  shows "\<exists>s'. flipTrigger ts s = Inr (s', [FlipCall (focus (store s))])"
  using assms by (simp add: flipTrigger_def Let_def flip_def bump_def)

lemma tickDue_sceneAt:
  "1 / 30 \<le> t \<Longrightarrow> t \<le> 30 \<Longrightarrow> tickDue (updateClock (frameAt t) (clock (sceneAt t0 off)))"
  by (rule tickDue_frameAt) (simp_all add: sceneAt_def)

lemma not_paused_sceneAt: "\<not> paused (sceneAt t off)"
  by (simp add: paused_def hoverAt_def scene_defs)

lemma beginFrame_sceneAt_clock:
  "t \<le> 30 \<Longrightarrow>
   clock (beginFrame (frameAt t) (sceneAt t0 off)) =
     \<lparr>tick = 0, lastTick = 0, tps = 30, elapsed = t, prevElapsed = t0, animOffset = off\<rparr>"
  by (simp add: beginFrame_def updateClock_def Let_def frameAt_def sceneAt_def)

lemma flip_call_in_range:
  assumes "flipCalls (effects (frame ts inp s)) \<noteq> []"
  shows "focus (store s) < length (cards (store s))"
proof -
  have due: "tickDue (updateClock inp (clock s))"
    using assms by (rule contrapos_np) (simp add: frame_gated)
  have np: "\<not> paused s"
    using assms frame_paused(2)[OF due] by blast
  obtain s' fl where ft: "flipTrigger ts (beginFrame inp s) = Inr (s', fl)"
    using assms frame_fault(3)[OF due np]
    by (cases "flipTrigger ts (beginFrame inp s)") auto
  have "flipCalls (effects (frame ts inp s)) = flipCalls fl"
    by (rule frame_active(3)[OF due np ft])
  with assms have "fl \<noteq> []"
    by auto
  with ft have "focus (store (beginFrame inp s)) < length (cards (store (beginFrame inp s)))"
    by (auto simp: flipTrigger_def Let_def flip_def bump_def
        split: if_splits sum.splits prod.splits)
  then show ?thesis
    by (simp add: beginFrame_fields)
qed

lemma frame_flips:
  assumes "tickDue (updateClock inp (clock s))" "\<not> paused s" "5 < elapsedTime inp"
    and "0 < cycleAt (clock s) (elapsedTime inp)"
    and "nthDigit ts 0 (cycleAt (clock s) (elapsedTime inp)) = Inr (Some 9)"
    and "nthDigit ts 1 (cycleAt (clock s) (elapsedTime inp)) = Inr (Some 1)"
    and "nthDigit ts 1 (cycleAt (clock s) (elapsed (clock s))) = Inr (Some 0)"
    and "focus (store s) < length (cards (store s))"
  shows "flipCalls (effects (frame ts inp s)) = [focus (store s)]"
proof -
  define b where "b = beginFrame inp s"
  have ck: "elapsed (clock b) = elapsedTime inp" "prevElapsed (clock b) = elapsed (clock s)"
    "cycleAt (clock b) t = cycleAt (clock s) t" "store b = store s" for t
    by (simp_all add: b_def beginFrame_fields updateClock_fields cycleAt_updateClock)
  have "\<exists>s'. flipTrigger ts b = Inr (s', [FlipCall (focus (store b))])"
  proof (rule flipTrigger_fire)
    show "5 < elapsed (clock b)"
      using assms(3) by (simp add: ck)
    show "0 < cycleAt (clock b) (elapsed (clock b))"
      using assms(4) by (simp add: ck)
    show "nthDigit ts 0 (cycleAt (clock b) (elapsed (clock b))) = Inr (Some 9)"
      using assms(5) by (simp add: ck)
    show "nthDigit ts (Suc 0) (cycleAt (clock b) (elapsed (clock b))) = Inr (Some (Suc 0))"
      using assms(6) by (simp add: ck)
    show "nthDigit ts (Suc 0) (cycleAt (clock b) (prevElapsed (clock b))) = Inr (Some 0)"
      using assms(7) by (simp add: ck)
    show "focus (store b) < length (cards (store b))"
      using assms(8) by (simp add: ck)
  qed
  then obtain s' where "flipTrigger ts (beginFrame inp s) = Inr (s', [FlipCall (focus (store s))])"
    unfolding ck(4) unfolding b_def by blast
  from frame_active(3)[OF assms(1,2) this] show ?thesis
    by simp
qed

text \<open>
  C3, as amended. \<^verbatim>\<open>cycle\<close> is the sine at this frame's time and \<^verbatim>\<open>prevCycle\<close> the sine at the
  last frame's time.

  \<^item> For every rendering \<open>toString\<close>, a frame calls \<^verbatim>\<open>flip\<close> at most once, for the focused
    card, and it does so exactly when it passes the tick gate, the focused card is neither
    hovered nor the drag target, \<open>elapsed > 5\<close>, \<open>cycle > 0\<close>, the rendering of \<^verbatim>\<open>cycle\<close> has 9
    and 1 as its first and second fractional digit, the rendering of \<^verbatim>\<open>prevCycle\<close> has 0 as
    its second, and the focus is the index of a card.
  \<^item> The next frame, whenever it comes and whatever the handlers did in between (they do
    not touch the clock), does not call \<^verbatim>\<open>flip\<close>: its \<^verbatim>\<open>prevCycle\<close> is this frame's \<^verbatim>\<open>cycle\<close>,
    whose second digit is 1. The trigger never fires twice in a row for one crossing.
  \<^item> With the rendering of \<^verbatim>\<open>Number.prototype.toString\<close> and a \<^verbatim>\<open>cycle\<close> of at least \<^verbatim>\<open>1e-6\<close>, a
    frame that calls \<^verbatim>\<open>flip\<close> has \<^verbatim>\<open>prevCycle\<close> below 0.91 and \<^verbatim>\<open>cycle\<close> from 0.91 to 0.92: between
    the two frames the sampled cycle has gone up across 0.91, never down.
  \<^item> With that rendering, a frame that passes the gate with the focused card active and
    \<open>elapsed > 5\<close>, whose \<^verbatim>\<open>prevCycle\<close> lies between 0.90 and 0.91 and whose \<^verbatim>\<open>cycle\<close> lies
    from 0.91 to 0.92, calls \<^verbatim>\<open>flip\<close>.
\<close>

theorem flip_on_sampled_rise:
  "flipCalls (effects (frame ts inp s)) =
     (if tickDue (updateClock inp (clock s)) \<and> \<not> paused s \<and> 5 < elapsedTime inp \<and>
         0 < cycleAt (clock s) (elapsedTime inp) \<and>
         nthDigit ts 0 (cycleAt (clock s) (elapsedTime inp)) = Inr (Some 9) \<and>
         nthDigit ts 1 (cycleAt (clock s) (elapsedTime inp)) = Inr (Some 1) \<and>
         nthDigit ts 1 (cycleAt (clock s) (elapsed (clock s))) = Inr (Some 0) \<and>
         focus (store s) < length (cards (store s))
      then [focus (store s)] else []) \<and>
   (flipCalls (effects (frame ts inp s)) \<noteq> [] \<longrightarrow>
      (\<forall>inp2 (s2::Scene). clock s2 = clock (after (frame ts inp s)) \<longrightarrow>
         flipCalls (effects (frame ts inp2 s2)) = [])) \<and>
   (flipCalls (effects (frame decimalToString inp s)) \<noteq> [] \<and>
    1 / 10 ^ 6 \<le> cycleAt (clock s) (elapsedTime inp) \<longrightarrow>
      cycleAt (clock s) (elapsed (clock s)) < 0.91 \<and>
      0.91 \<le> cycleAt (clock s) (elapsedTime inp) \<and>
      cycleAt (clock s) (elapsedTime inp) < 0.92) \<and>
   (tickDue (updateClock inp (clock s)) \<and> \<not> paused s \<and> 5 < elapsedTime inp \<and>
    focus (store s) < length (cards (store s)) \<and>
    0.90 < cycleAt (clock s) (elapsed (clock s)) \<and>
    cycleAt (clock s) (elapsed (clock s)) < 0.91 \<and>
    0.91 \<le> cycleAt (clock s) (elapsedTime inp) \<and>
    cycleAt (clock s) (elapsedTime inp) < 0.92 \<longrightarrow>
      flipCalls (effects (frame decimalToString inp s)) = [focus (store s)])"
proof (intro conjI impI)
  show "flipCalls (effects (frame ts inp s)) =
     (if tickDue (updateClock inp (clock s)) \<and> \<not> paused s \<and> 5 < elapsedTime inp \<and>
         0 < cycleAt (clock s) (elapsedTime inp) \<and>
         nthDigit ts 0 (cycleAt (clock s) (elapsedTime inp)) = Inr (Some 9) \<and>
         nthDigit ts 1 (cycleAt (clock s) (elapsedTime inp)) = Inr (Some 1) \<and>
         nthDigit ts 1 (cycleAt (clock s) (elapsed (clock s))) = Inr (Some 0) \<and>
         focus (store s) < length (cards (store s))
      then [focus (store s)] else [])"
  proof (cases "flipCalls (effects (frame ts inp s)) = []")
    case True
    then show ?thesis
      using frame_flips[of inp s ts] by auto
  next
    case False
    from flip_call_conditions[OF False] flip_call_in_range[OF False] show ?thesis
      by simp
  qed
next
  assume fl: "flipCalls (effects (frame ts inp s)) \<noteq> []"
  note c = flip_call_conditions[OF fl]
  show "\<forall>inp2 (s2::Scene). clock s2 = clock (after (frame ts inp s)) \<longrightarrow>
          flipCalls (effects (frame ts inp2 s2)) = []"
  proof (intro allI impI)
    fix inp2 and s2 :: Scene
    assume eq: "clock s2 = clock (after (frame ts inp s))"
    show "flipCalls (effects (frame ts inp2 s2)) = []"
    proof (rule ccontr)
      assume "flipCalls (effects (frame ts inp2 s2)) \<noteq> []"
      from flip_call_conditions[OF this]
      have "nthDigit ts 1 (cycleAt (clock s2) (elapsed (clock s2))) = Inr (Some 0)"
        by simp
      moreover have "clock s2 = updateClock inp (clock s)"
        using eq c by simp
      ultimately have "nthDigit ts 1 (cycleAt (clock s) (elapsedTime inp)) = Inr (Some 0)"
        by (simp add: cycleAt_updateClock updateClock_fields)
      with c show False
        by simp
    qed
  qed
next
  assume a: "flipCalls (effects (frame decimalToString inp s)) \<noteq> [] \<and>
             1 / 10 ^ 6 \<le> cycleAt (clock s) (elapsedTime inp)"
  note c = flip_call_conditions[OF a[THEN conjunct1]]
  have w: "0.91 \<le> cycleAt (clock s) (elapsedTime inp) \<and> cycleAt (clock s) (elapsedTime inp) < 0.92"
    using a c by (intro trigger_window_of_digits cycle_le_one) simp_all
  have "\<not> 0.91 \<le> cycleAt (clock s) (elapsed (clock s))"
    using second_digit_after_window[OF _ cycle_le_one, of "clock s" "elapsed (clock s)"] c
    by blast
  then show "cycleAt (clock s) (elapsed (clock s)) < 0.91"
    by simp
  from w show "0.91 \<le> cycleAt (clock s) (elapsedTime inp)"
    "cycleAt (clock s) (elapsedTime inp) < 0.92"
    by simp_all
next
  assume a: "tickDue (updateClock inp (clock s)) \<and> \<not> paused s \<and> 5 < elapsedTime inp \<and>
    focus (store s) < length (cards (store s)) \<and>
    0.90 < cycleAt (clock s) (elapsed (clock s)) \<and>
    cycleAt (clock s) (elapsed (clock s)) < 0.91 \<and>
    0.91 \<le> cycleAt (clock s) (elapsedTime inp) \<and>
    cycleAt (clock s) (elapsedTime inp) < 0.92"
  show "flipCalls (effects (frame decimalToString inp s)) = [focus (store s)]"
  proof (rule frame_flips)
    show "tickDue (updateClock inp (clock s))" "\<not> paused s" "5 < elapsedTime inp"
      "focus (store s) < length (cards (store s))"
      using a by simp_all
    show "0 < cycleAt (clock s) (elapsedTime inp)"
      using a by simp
    show "nthDigit decimalToString 0 (cycleAt (clock s) (elapsedTime inp)) = Inr (Some 9)"
      using a by (intro digits_of_trigger_window(1)) simp_all
    show "nthDigit decimalToString 1 (cycleAt (clock s) (elapsedTime inp)) = Inr (Some 1)"
      using a by (intro digits_of_trigger_window(2)) simp_all
    show "nthDigit decimalToString 1 (cycleAt (clock s) (elapsed (clock s))) = Inr (Some 0)"
      using a by (intro digit_of_window_before) simp_all
  qed
qed

text \<open>
  Witness for C3: 10 s of pause accumulated, frames at 13.45 s and 13.5 s. \<^verbatim>\<open>prevCycle\<close> is
  \<open>sin 1.1385\<close>, between 0.90 and 0.91, \<^verbatim>\<open>cycle\<close> is \<open>sin 1.155\<close>, between 0.91 and 0.92: the
  frame at 13.5 s flips card 0, and the frame after it, at 13.55 s, does not.
\<close>

theorem flip_on_sampled_rise_witness:
  "flipCalls (effects (frame decimalToString (frameAt 13.5) (sceneAt 13.45 10))) = [0] \<and>
   flipCalls (effects (frame decimalToString (frameAt 13.55)
     (after (frame decimalToString (frameAt 13.5) (sceneAt 13.45 10))))) = [] \<and>
   cycleAt (clock (sceneAt 13.45 10)) 13.45 < 0.91 \<and>
   0.91 \<le> cycleAt (clock (sceneAt 13.45 10)) 13.5 \<and>
   cycleAt (clock (sceneAt 13.45 10)) 13.5 < 0.92"
proof -
  define a where "a = sceneAt 13.45 10"
  define i1 where "i1 = frameAt 13.5"
  have el: "elapsedTime i1 = 13.5" "elapsed (clock a) = 13.45"
    by (simp_all add: i1_def a_def frameAt_def sceneAt_def)
  have ca: "cycleAt (clock a) x = cycleAt (clock (sceneAt 13.45 10)) x" for x
    by (simp add: a_def)
  have w: "0.91 \<le> cycleAt (clock a) (elapsedTime i1)" "cycleAt (clock a) (elapsedTime i1) < 0.92"
    using cycle_1350[of "13.45"] by (simp_all add: el ca)
  have v: "0.90 < cycleAt (clock a) (elapsed (clock a))"
    "cycleAt (clock a) (elapsed (clock a)) < 0.91"
    using cycle_1345[of "13.45"] by (simp_all add: el ca)
  have fo: "focus (store a) = 0" "focus (store a) < length (cards (store a))"
    by (simp_all add: a_def scene_defs)
  have due: "tickDue (updateClock i1 (clock a))"
    unfolding i1_def a_def by (rule tickDue_sceneAt) simp_all
  have np: "\<not> paused a"
    unfolding a_def by (rule not_paused_sceneAt)
  have t5: "5 < elapsedTime i1"
    by (simp add: el)
  have lo: "1 / 10 ^ 6 \<le> cycleAt (clock a) (elapsedTime i1)"
    using w(1) by simp
  note th = flip_on_sampled_rise[of decimalToString i1 a]
  have fc: "flipCalls (effects (frame decimalToString i1 a)) = [focus (store a)]"
    using th due np t5 fo(2) v w by blast
  then have ne: "flipCalls (effects (frame decimalToString i1 a)) \<noteq> []"
    by simp
  have nx: "flipCalls (effects (frame decimalToString (frameAt 13.55)
          (after (frame decimalToString i1 a)))) = []"
    using th ne by blast
  have dir: "cycleAt (clock a) (elapsed (clock a)) < 0.91 \<and>
      0.91 \<le> cycleAt (clock a) (elapsedTime i1) \<and> cycleAt (clock a) (elapsedTime i1) < 0.92"
    using th ne lo by blast
  from fc[unfolded fo(1), unfolded i1_def a_def] nx[unfolded i1_def a_def]
    dir[unfolded el, unfolded a_def]
  show ?thesis
    by blast
qed

text \<open>
  Counterexample to C3 as stated, in two runs with 10 s of pause accumulated and the
  focused card active.

  \<^item> The last frame was at 13 s and this one is at 14 s. The argument of the sine goes
    from 0.99 to 1.32 and stays below \<open>pi / 2\<close>, where the sine only rises; \<^verbatim>\<open>cycle\<close> goes from
    \<open>sin 0.99\<close>, below 0.90, to \<open>sin 1.32\<close>, above 0.91: it crosses the trigger point upwards
    between the two frames. The rendering of \<open>sin 1.32\<close> starts \<open>0.96\<close>, so the second digit
    is not 1 and \<^verbatim>\<open>flip\<close> is not called: this upward crossing fires no flip.
  \<^item> The last frame was at 12.82 s and this one is at 16 s. \<^verbatim>\<open>prevCycle\<close> is \<open>sin 0.9306\<close>,
    rendered \<open>0.80...\<close>; \<^verbatim>\<open>cycle\<close> is \<open>sin 1.98\<close>, between 0.91 and 0.92, past the peak: the
    derivative of the cycle, \<open>0.33 * cos 1.98\<close>, is negative. \<^verbatim>\<open>flip\<close> is called on this frame,
    where the cycle is falling towards the trigger point.
\<close>

theorem flip_misses_rise_and_fires_on_fall:
  "elapsed (clock (sceneAt 13 10)) = 13 \<and>
   0 \<le> (13 - animOffset (clock (sceneAt 13 10))) * 0.33 \<and>
   (14 - animOffset (clock (sceneAt 13 10))) * 0.33 < pi / 2 \<and>
   cycleAt (clock (sceneAt 13 10)) 13 < 0.90 \<and>
   0.91 < cycleAt (clock (sceneAt 13 10)) 14 \<and>
   fault (frame decimalToString (frameAt 14) (sceneAt 13 10)) = None \<and>
   flipCalls (effects (frame decimalToString (frameAt 14) (sceneAt 13 10))) = [] \<and>
   elapsed (clock (sceneAt 12.82 10)) = 12.82 \<and>
   cycleAt (clock (sceneAt 12.82 10)) 12.82 < 0.81 \<and>
   0.91 < cycleAt (clock (sceneAt 12.82 10)) 16 \<and>
   cycleAt (clock (sceneAt 12.82 10)) 16 < 0.92 \<and>
   cos ((16 - animOffset (clock (sceneAt 12.82 10))) * 0.33) < 0 \<and>
   fault (frame decimalToString (frameAt 16) (sceneAt 12.82 10)) = None \<and>
   flipCalls (effects (frame decimalToString (frameAt 16) (sceneAt 12.82 10))) = [0]"
proof -
  have q: "0 \<le> (13 - animOffset (clock (sceneAt 13 10))) * 0.33"
    "(14 - animOffset (clock (sceneAt 13 10))) * 0.33 < pi / 2"
    using rising_quarter by (simp_all add: sceneAt_def)
  let ?b = "beginFrame (frameAt 14) (sceneAt 13 10)"
  have el: "elapsedTime (frameAt 14) = 14"
    by (simp add: frameAt_def)
  have w: "real (10 * 9 + 6) / 100 \<le> cycleAt (clock (sceneAt 13 10)) 14"
          "cycleAt (clock (sceneAt 13 10)) 14 < real (10 * 9 + 6 + 1) / 100"
          "cycleAt (clock (sceneAt 13 10)) 14 * 10 \<noteq> real (9::nat)"
    using cycle_14[of 13] by simp_all
  have d0: "nthDigit decimalToString 0 (cycleAt (clock (sceneAt 13 10)) 14) = Inr (Some 9)"
    by (rule nthDigit_window(1)[OF w]) simp_all
  have d1: "nthDigit decimalToString 1 (cycleAt (clock (sceneAt 13 10)) 14) = Inr (Some 6)"
    by (rule nthDigit_window(2)[OF w]) simp_all
  have ft: "flipTrigger decimalToString ?b = Inr (?b, [])"
    using cycle_14[of 13]
    by (simp add: flipTrigger_def Let_def beginFrame_fields updateClock_fields
        cycleAt_updateClock el d0 d1 d1[unfolded One_nat_def])
  have due: "tickDue (updateClock (frameAt 14) (clock (sceneAt 13 10)))"
    by (rule tickDue_sceneAt) simp_all
  have e: "elapsed (clock (sceneAt 13 10)) = 13"
    by (simp add: sceneAt_def)
  have c: "cycleAt (clock (sceneAt 13 10)) 13 < 0.90" "0.91 < cycleAt (clock (sceneAt 13 10)) 14"
    using cycle_13[of 13] cycle_14[of 13] by simp_all
  have fc1: "flipCalls (effects (frame decimalToString (frameAt 14) (sceneAt 13 10))) = []"
    using frame_active(3)[OF due not_paused_sceneAt ft] by simp
  note run1 = e q c frame_active(2)[OF due not_paused_sceneAt ft] fc1
  define a where "a = sceneAt 12.82 10"
  define i1 where "i1 = frameAt 16"
  have el2: "elapsedTime i1 = 16" "elapsed (clock a) = 12.82"
    by (simp_all add: i1_def a_def frameAt_def sceneAt_def)
  have ca: "cycleAt (clock a) x = cycleAt (clock (sceneAt 12.82 10)) x" for x
    by (simp add: a_def)
  have w2: "0.91 \<le> cycleAt (clock a) (elapsedTime i1)" "cycleAt (clock a) (elapsedTime i1) < 0.92"
    "0 < cycleAt (clock a) (elapsedTime i1)"
    using cycle_16[of "12.82"] by (simp_all add: el2 ca)
  have v2: "real (10 * 8 + 0) / 100 \<le> cycleAt (clock a) (elapsed (clock a))"
    "cycleAt (clock a) (elapsed (clock a)) < real (10 * 8 + 0 + 1) / 100"
    "cycleAt (clock a) (elapsed (clock a)) * 10 \<noteq> real (8::nat)"
    using cycle_1282[of "12.82"] by (simp_all add: el2 ca)
  have p1: "nthDigit decimalToString 1 (cycleAt (clock a) (elapsed (clock a))) = Inr (Some 0)"
    by (rule nthDigit_window(2)[OF v2]) simp_all
  have fo: "focus (store a) = 0" "focus (store a) < length (cards (store a))"
    by (simp_all add: a_def scene_defs)
  have due2: "tickDue (updateClock i1 (clock a))"
    unfolding i1_def a_def by (rule tickDue_sceneAt) simp_all
  have np2: "\<not> paused a"
    unfolding a_def by (rule not_paused_sceneAt)
  have t5: "5 < elapsedTime i1"
    by (simp add: el2)
  have fc: "flipCalls (effects (frame decimalToString i1 a)) = [focus (store a)]"
    by (rule frame_flips[OF due2 np2 t5 w2(3) digits_of_trigger_window[OF w2(1,2)] p1 fo(2)])
  obtain s' fl where ft2: "flipTrigger decimalToString (beginFrame i1 a) = Inr (s', fl)"
    using frame_fault(3)[OF due2 np2, of decimalToString] fc
    by (cases "flipTrigger decimalToString (beginFrame i1 a)") auto
  have nf: "fault (frame decimalToString i1 a) = None"
    by (rule frame_active(2)[OF due2 np2 ft2])
  have e2: "elapsed (clock (sceneAt 12.82 10)) = 12.82"
    by (simp add: sceneAt_def)
  have c2: "cycleAt (clock (sceneAt 12.82 10)) 12.82 < 0.81"
    "0.91 < cycleAt (clock (sceneAt 12.82 10)) 16"
    "cycleAt (clock (sceneAt 12.82 10)) 16 < 0.92"
    using cycle_1282[of "12.82"] cycle_16[of "12.82"] by simp_all
  have dn: "cos ((16 - animOffset (clock (sceneAt 12.82 10))) * 0.33) < 0"
    using falling_at_16 by (simp add: sceneAt_def)
  note run2 = e2 c2 dn nf[unfolded i1_def a_def] fc[unfolded fo(1), unfolded i1_def a_def]
  from run1 run2 show ?thesis
    by blast
qed

subsection \<open>Just after a zero crossing\<close>

text \<open>
  Where the bound \<^verbatim>\<open>1e-6\<close> on the cycle matters: below it the trigger reads the digits of the
  mantissa. With 10 s of pause accumulated, the last frame at 9.07 s and this one at
  10.00000058 s, \<^verbatim>\<open>prevCycle\<close> is \<open>sin (-0.3069)\<close>, rendered \<^verbatim>\<open>-0.30...\<close>, and \<^verbatim>\<open>cycle\<close> is
  \<open>sin 0.0000001914\<close>, rendered \<^verbatim>\<open>1.91...e-7\<close>: \<^verbatim>\<open>flip\<close> is called just after the cycle has
  passed zero.
\<close>

lemma flip_on_mantissa_digits:
  "cycleAt (clock (sceneAt 9.07 10)) 9.07 < - 0.30 \<and>
   0 < cycleAt (clock (sceneAt 9.07 10)) (10 + 58 / 10 ^ 8) \<and>
   cycleAt (clock (sceneAt 9.07 10)) (10 + 58 / 10 ^ 8) < 1 / 10 ^ 6 \<and>
   decimalToString (1.914 / 10 ^ 7) = ''1.914e-7'' \<and>
   flipCalls (effects (frame decimalToString (frameAt (10 + 58 / 10 ^ 8)) (sceneAt 9.07 10))) = [0]"
proof -
  define a where "a = sceneAt 9.07 10"
  define u :: real where "u = 10 + 58 / 10 ^ 8"
  define i1 where "i1 = frameAt u"
  have el: "elapsedTime i1 = u" "elapsed (clock a) = 9.07"
    by (simp_all add: i1_def a_def frameAt_def sceneAt_def)
  have ca: "cycleAt (clock a) x = cycleAt (clock (sceneAt 9.07 10)) x" for x
    by (simp add: a_def)
  have w: "1.91 / 10 ^ 7 \<le> cycleAt (clock a) (elapsedTime i1)"
    "cycleAt (clock a) (elapsedTime i1) < 1.92 / 10 ^ 7"
    using cycle_near_zero[of "9.07"] by (simp_all add: el ca u_def)
  have pos: "0 < cycleAt (clock a) (elapsedTime i1)"
    using w(1) by (rule less_le_trans[rotated]) simp
  have v: "real (10 * 3 + 0) / 100 \<le> sin (0.3069 :: real)"
    "sin (0.3069 :: real) < real (10 * 3 + 0 + 1) / 100"
    "sin (0.3069 :: real) * 10 \<noteq> real (3::nat)"
    using cycle_907[of 0] by simp_all
  have "nthDigit decimalToString 1 (sin (0.3069 :: real)) = Inr (Some 0)"
    by (rule nthDigit_window(2)[OF v]) simp_all
  moreover have "nthDigit decimalToString 1 (- sin (0.3069 :: real)) =
      nthDigit decimalToString 1 (sin (0.3069 :: real))"
    using cycle_907[of 0] by (intro nthDigit_minus) simp_all
  moreover have pc: "cycleAt (clock a) (elapsed (clock a)) = - sin (0.3069 :: real)"
    using cycle_907[of "9.07"] by (simp add: el ca)
  ultimately have p1: "nthDigit decimalToString 1 (cycleAt (clock a) (elapsed (clock a))) =
      Inr (Some 0)"
    by simp
  have fo: "focus (store a) = 0" "focus (store a) < length (cards (store a))"
    by (simp_all add: a_def scene_defs)
  have due: "tickDue (updateClock i1 (clock a))"
    unfolding i1_def a_def by (rule tickDue_sceneAt) (simp_all add: u_def)
  have np: "\<not> paused a"
    unfolding a_def by (rule not_paused_sceneAt)
  have t5: "5 < elapsedTime i1"
    by (simp add: el u_def)
  have fc: "flipCalls (effects (frame decimalToString i1 a)) = [focus (store a)]"
    by (rule frame_flips[OF due np t5 pos digits_of_mantissa_window[OF w] p1 fo(2)])
  have c1: "cycleAt (clock a) (elapsed (clock a)) < - 0.30"
    using cycle_907[of 0] by (simp add: pc)
  have c2: "cycleAt (clock a) (elapsedTime i1) < 1 / 10 ^ 6"
    using w(2) by simp
  have ds: "decimalToString (1.914 / 10 ^ 7) = ''1.914e-7''"
    by (simp add: decimalToString_def mantissaDigits_def digitChar_def scaleUp_numeral
        fractionDigits_numeral fractionDigits_zero Let_def)
  from c1[unfolded el, unfolded a_def] pos[unfolded el, unfolded a_def u_def]
    c2[unfolded el, unfolded a_def u_def] ds
    fc[unfolded fo(1), unfolded i1_def a_def u_def]
  show ?thesis
    by blast
qed

subsection \<open>The cycle at its peak\<close>

text \<open>
  C5, at the input where the code departs from it: \<^verbatim>\<open>cycle\<close> is exactly 1 (20 s of pause
  accumulated, the frame at \<open>20 + (pi / 2) / 0.33\<close> s, so the sine is taken at \<open>pi / 2\<close>). The
  number 1 is rendered \<^verbatim>\<open>"1"\<close>, \<^verbatim>\<open>split(".")\<close> gives one piece, \<^verbatim>\<open>[1]\<close> is \<^verbatim>\<open>undefined\<close> and
  indexing it raises a \<^verbatim>\<open>TypeError\<close>, which leaves the frame callback.
\<close>

theorem nthDigit_raises_at_cycle_one:
  "decimalToString 1 = ''1'' \<and>
   nthDigit decimalToString 0 1 = Inl TypeError \<and>
   cycleAt (clock (sceneAt 24 20)) (20 + pi / 2 / 0.33) = 1 \<and>
   fault (frame decimalToString (frameAt (20 + pi / 2 / 0.33)) (sceneAt 24 20)) = Some TypeError"
proof -
  define t :: real where "t = 20 + pi / 2 / 0.33"
  define b where "b = beginFrame (frameAt t) (sceneAt 24 20)"
  have ds: "decimalToString 1 = ''1''"
    by (simp add: decimalToString_def digitChar_def fractionDigits_zero)
  have cy: "cycleAt (clock (sceneAt 24 20)) t = 1"
    by (simp add: cycleAt_def sceneAt_def t_def)
  have tp: "0 < pi / 2 / (0.33::real)" "pi / 2 / (0.33::real) < 10"
    using pi_gt_zero pi_less_4 by simp_all
  have t5: "5 < t" "1 / 30 \<le> t" "t \<le> 30"
    unfolding t_def using tp by linarith+
  have ck: "elapsed (clock b) = t" "cycleAt (clock b) t = 1"
    using cy by (simp_all add: b_def beginFrame_fields updateClock_fields cycleAt_updateClock
        frameAt_def)
  have ft: "flipTrigger decimalToString (beginFrame (frameAt t) (sceneAt 24 20)) = Inl TypeError"
    using t5(1) by (simp add: flipTrigger_def Let_def b_def[symmetric] ck nthDigit_of_one)
  have due: "tickDue (updateClock (frameAt t) (clock (sceneAt 24 20)))"
    using t5(2,3) by (rule tickDue_sceneAt)
  from ds nthDigit_of_one[of 0] cy[unfolded t_def]
    frame_fault(1)[OF due not_paused_sceneAt ft, unfolded t_def]
  show ?thesis
    by blast
qed

end
